theory Spec2Isabelle
  imports Main "HOL-Library.Sublist"
begin

section \<open>LAEH2: asynchronous error handling, embedded from lib/laeh2.js\<close>

text \<open>
  The library has three exported functions: \<^verbatim>\<open>_e\<close> (check, wrap and throw),
  \<^verbatim>\<open>_x\<close> (the try-catch wrapper for asynchronous callbacks) and
  \<^verbatim>\<open>leanStacks\<close> (which installs \<^verbatim>\<open>Error.prepareStackTrace\<close>).
  An identifier cannot start with an underscore here, so \<^verbatim>\<open>_e\<close> is \<open>laeh_e\<close>
  and \<^verbatim>\<open>_x\<close> is \<open>laeh_x\<close>.
\<close>

subsection \<open>JavaScript values\<close>

text \<open>
  The values a caller can pass or throw. The library looks at a value in four ways only:
  is it falsy, is it a function, is it an \<^verbatim>\<open>Error\<close>, is its type \<^verbatim>\<open>object\<close>;
  everything else it leaves to the engine's string conversion and to
  \<^verbatim>\<open>JSON.stringify\<close>, which are parameters below. \<open>Num n\<close> is a number other than
  \<open>NaN\<close> (only whether it is zero matters here), \<open>BigInt n\<close> a big integer, \<open>Sym i\<close>
  a symbol. A function value is identified by a number and carries its source text, for
  the reader. \<open>Obj ps\<close> is any other object that is not an \<^verbatim>\<open>Error\<close>, given by its
  properties. An \<^verbatim>\<open>Error\<close> object lives in the store and a value refers to it by
  address, because \<^verbatim>\<open>_e\<close> and \<^verbatim>\<open>_x\<close> mutate it in place.
\<close>

datatype jsval =
    Undefined
  | Null
  | Bool bool
  | Num int
  | NaN
  | BigInt int
  | Str string
  | Sym nat
  | Fn nat string
  | Obj "(string \<times> jsval) list"
  | ErrRef nat

text \<open>
  \<^verbatim>\<open>if(v)\<close>: the falsy values are undefined, null, false, 0, NaN, the big integer 0 and
  the empty string.
\<close>

fun truthy :: "jsval \<Rightarrow> bool" where
  "truthy Undefined = False"
| "truthy Null = False"
| "truthy (Bool b) = b"
| "truthy (Num n) = (n \<noteq> 0)"
| "truthy NaN = False"
| "truthy (BigInt n) = (n \<noteq> 0)"
| "truthy (Sym i) = True"
| "truthy (Str s) = (s \<noteq> [])"
| "truthy (Fn i src) = True"
| "truthy (Obj ps) = True"
| "truthy (ErrRef a) = True"

text \<open>\<^verbatim>\<open>typeof(v) === 'function'\<close>, \<^verbatim>\<open>v instanceof Error\<close> and, for a truthy \<open>v\<close>,
  \<^verbatim>\<open>typeof(v) === 'object'\<close>.\<close>

fun is_function :: "jsval \<Rightarrow> bool" where
  "is_function (Fn i src) = True"
| "is_function v = False"

fun instanceof_Error :: "jsval \<Rightarrow> bool" where
  "instanceof_Error (ErrRef a) = True"
| "instanceof_Error v = False"

fun typeof_object :: "jsval \<Rightarrow> bool" where
  "typeof_object Null = True"
| "typeof_object (Obj ps) = True"
| "typeof_object (ErrRef a) = True"
| "typeof_object v = False"

definition digit :: "nat \<Rightarrow> char" where
  "digit d = ''0123456789'' ! d"

function show_nat :: "nat \<Rightarrow> string" where
  "show_nat n = (if n < 10 then [digit n] else show_nat (n div 10) @ [digit (n mod 10)])"
  by pat_completeness auto
termination
  by (relation "measure id") auto

declare show_nat.simps [simp del]

subsection \<open>Error objects and the store\<close>

text \<open>
  Strings are lists of characters, one for each code unit of the JavaScript string.
\<close>

text \<open>
  A raw stack frame as V8 hands it to \<^verbatim>\<open>Error.prepareStackTrace\<close>: the four accessors
  the library calls. \<open>None\<close> is \<^verbatim>\<open>null\<close> or \<^verbatim>\<open>undefined\<close>.
\<close>

record frame =
  getFileName :: "string option"
  getLineNumber :: "nat option"
  isEval :: bool
  isNative :: bool

text \<open>
  An \<^verbatim>\<open>Error\<close> object: its \<^verbatim>\<open>message\<close>, the \<^verbatim>\<open>meta\<close> property
  (\<open>Undefined\<close> until \<^verbatim>\<open>_e\<close> sets it), the \<^verbatim>\<open>prev\<close> property (only \<^verbatim>\<open>_x\<close> writes
  it, always with an \<^verbatim>\<open>Error\<close>: \<open>None\<close> until then), and the structured stack V8
  captured when the object was constructed.
\<close>

record errobj =
  message :: string
  meta :: jsval
  prev :: "nat option"
  captured :: "frame list"

text \<open>The store: the \<^verbatim>\<open>Error\<close> objects allocated so far, an address is an index.\<close>

type_synonym heap = "errobj list"

text \<open>
  The string conversion \<^verbatim>\<open>new Error(v)\<close> applies to \<open>v\<close>. For undefined, null, a
  boolean, \<open>NaN\<close> and a string the language fixes the text, and nothing else happens.
\<close>

fun plain_text :: "jsval \<Rightarrow> string option" where
  "plain_text Undefined = Some ''undefined''"
| "plain_text Null = Some ''null''"
| "plain_text (Bool b) = Some (if b then ''true'' else ''false'')"
| "plain_text NaN = Some ''NaN''"
| "plain_text (Str s) = Some s"
| "plain_text v = None"

text \<open>
  For every other value the conversion is the engine's and, for an object or a function,
  the caller's code (its own \<^verbatim>\<open>toString\<close>): it may return any text, it may throw
  instead (as it does for a symbol), and it may allocate or change \<^verbatim>\<open>Error\<close> objects
  on the way. So it is a parameter: \<open>conv v h\<close> is the text (\<open>Inr\<close>) or the thrown
  value (\<open>Inl\<close>), and the store the conversion leaves.
\<close>

type_synonym converter = "jsval \<Rightarrow> heap \<Rightarrow> (jsval + string) \<times> heap"

definition ToString :: "converter \<Rightarrow> jsval \<Rightarrow> heap \<Rightarrow> (jsval + string) \<times> heap" where
  "ToString conv v h = (case plain_text v of Some t \<Rightarrow> (Inr t, h) | None \<Rightarrow> conv v h)"

text \<open>
  The \<^verbatim>\<open>Error\<close> object a \<^verbatim>\<open>new Error\<close> allocates once its message text is known;
  \<open>st\<close> is the call stack at the \<^verbatim>\<open>new\<close>. \<^verbatim>\<open>new Error('...')\<close> with a string
  literal and \<^verbatim>\<open>new Error()\<close>, whose message is empty, need no conversion.
\<close>

definition alloc_Error :: "frame list \<Rightarrow> string \<Rightarrow> heap \<Rightarrow> nat \<times> heap" where
  "alloc_Error st t h =
     (length h, h @ [\<lparr>message = t, meta = Undefined, prev = None, captured = st\<rparr>])"

text \<open>
  \<^verbatim>\<open>new Error(v)\<close> for a value \<open>v\<close>: the message is the string form of \<open>v\<close>, or
  empty when \<open>v\<close> is \<^verbatim>\<open>undefined\<close>. When the conversion throws, no object is made and
  the result is what it threw (\<open>Inl\<close>); otherwise it is the new address (\<open>Inr\<close>).
\<close>

definition new_Error :: "converter \<Rightarrow> frame list \<Rightarrow> jsval \<Rightarrow> heap \<Rightarrow> (jsval + nat) \<times> heap" where
  "new_Error conv st v h =
     (if v = Undefined then (case alloc_Error st [] h of (a, h1) \<Rightarrow> (Inr a, h1))
      else
        (case ToString conv v h of
           (Inl x, h1) \<Rightarrow> (Inl x, h1)
         | (Inr t, h1) \<Rightarrow> (case alloc_Error st t h1 of (a, h2) \<Rightarrow> (Inr a, h2))))"

definition set_meta :: "nat \<Rightarrow> jsval \<Rightarrow> heap \<Rightarrow> heap" where
  "set_meta a m h = (if a < length h then h[a := (h ! a)\<lparr>meta := m\<rparr>] else h)"

definition set_prev :: "nat \<Rightarrow> nat \<Rightarrow> heap \<Rightarrow> heap" where
  "set_prev a p h = (if a < length h then h[a := (h ! a)\<lparr>prev := Some p\<rparr>] else h)"

text \<open>
  \<open>cap l\<close> is the stack V8 captures for the \<^verbatim>\<open>new Error\<close> on line \<open>l\<close> of
  lib/laeh2.js: it belongs to the engine and the caller, so it is a parameter.
\<close>

type_synonym capture = "nat \<Rightarrow> frame list"

subsection \<open>\<^verbatim>\<open>_e\<close>: check, wrap and throw\<close>

text \<open>
  \<^verbatim>\<open>
  exports._e = _e = function(e, meta) {
    if(e) {
      if(!(e instanceof Error))
        e = new Error(e);
      if(meta)
        e.meta = meta;
      throw e;
    }
  };
  \<close>
  The result is the thrown value (\<open>None\<close>: returned normally) and the store. What the
  conversion inside \<^verbatim>\<open>new Error(e)\<close> throws leaves the function as it is.
\<close>

definition laeh_e ::
  "converter \<Rightarrow> capture \<Rightarrow> jsval \<Rightarrow> jsval \<Rightarrow> heap \<Rightarrow> jsval option \<times> heap" where
  "laeh_e conv cap e mt h =
     (if truthy e then
        (case (case e of ErrRef a \<Rightarrow> (Inr a, h) | _ \<Rightarrow> new_Error conv (cap 31) e h) of
           (Inl x, h1) \<Rightarrow> (Some x, h1)
         | (Inr a, h1) \<Rightarrow>
             (Some (ErrRef a), if truthy mt then set_meta a mt h1 else h1))
      else (None, h))"

subsection \<open>\<^verbatim>\<open>_x\<close>: the try-catch wrapper for asynchronous callbacks\<close>

text \<open>
  \<^verbatim>\<open>
  exports._x = _x = function(cb, chk, func) {
    if(cb && typeof(cb) !== 'function')
      throw new Error('cb is not a function');
    if(typeof(func) !== 'function')
      throw new Error('func is not a function');
    var prev = new Error();
    return function() { ... };
  };
  \<close>
  The returned function closes over \<open>cb\<close>, \<open>chk\<close>, \<open>func\<close> and \<open>prev\<close>; it assigns
  \<open>cb\<close>, so the closure is a record that an invocation returns updated.
\<close>

record wrapper =
  w_cb :: jsval
  w_chk :: jsval
  w_func :: jsval
  w_prev :: nat

definition laeh_x ::
  "capture \<Rightarrow> jsval \<Rightarrow> jsval \<Rightarrow> jsval \<Rightarrow> heap \<Rightarrow> (jsval + wrapper) \<times> heap" where
  "laeh_x cap cb chk func h =
     (if truthy cb \<and> \<not> is_function cb then
        (let (a, h1) = alloc_Error (cap 47) ''cb is not a function'' h
         in (Inl (ErrRef a), h1))
      else if \<not> is_function func then
        (let (a, h1) = alloc_Error (cap 50) ''func is not a function'' h
         in (Inl (ErrRef a), h1))
      else
        (let (p, h1) = alloc_Error (cap 52) [] h
         in (Inr \<lparr>w_cb = cb, w_chk = chk, w_func = func, w_prev = p\<rparr>, h1)))"

text \<open>
  What calling a function value does is the caller's code: \<open>app f args h\<close> is the value
  \<open>f\<close> throws when applied to \<open>args\<close> in store \<open>h\<close> (\<open>None\<close>: it returns) and the store
  it leaves. The wrapped logic and the completion handler run through it. They cannot
  reach the closure's variables, and they are taken not to call the instance that is
  running them.
\<close>

type_synonym applier = "jsval \<Rightarrow> jsval list \<Rightarrow> heap \<Rightarrow> jsval option \<times> heap"

text \<open>The calls an invocation of the wrapper makes itself, in order.\<close>

datatype event =
    RanLogic jsval "jsval list"
  | Delivered jsval "jsval list"

record outcome =
  thrown :: "jsval option"
  store :: heap
  closure :: wrapper
  events :: "event list"

text \<open>
  \<^verbatim>\<open>
  if(!cb)
    cb = a.length > 0 && typeof(a[a.length-1]) === 'function' ?
      a[a.length-1] : null;
  \<close>
\<close>

definition resolve_cb :: "jsval \<Rightarrow> jsval list \<Rightarrow> jsval" where
  "resolve_cb cb a =
     (if \<not> truthy cb then
        (if length a > 0 \<and> is_function (last a) then last a else Null)
      else cb)"

text \<open>\<^verbatim>\<open>a[0]\<close>, which is \<^verbatim>\<open>undefined\<close> when there is no argument.\<close>

definition arg0 :: "jsval list \<Rightarrow> jsval" where
  "arg0 a = (case a of [] \<Rightarrow> Undefined | x # xs \<Rightarrow> x)"

text \<open>
  The rest of the \<^verbatim>\<open>try\<close> block:
  \<^verbatim>\<open>
  if(chk)
    _e(a[0]);
  func.apply(null, a);
  \<close>
  The result is the thrown value, the store and the calls made.
\<close>

definition try_block ::
  "converter \<Rightarrow> applier \<Rightarrow> capture \<Rightarrow> wrapper \<Rightarrow> jsval list \<Rightarrow> heap
     \<Rightarrow> jsval option \<times> heap \<times> event list" where
  "try_block conv app cap w a h =
     (let (t1, h1) =
        (if truthy (w_chk w) then laeh_e conv cap (arg0 a) Undefined h else (None, h))
      in case t1 of
           Some v \<Rightarrow> (Some v, h1, [])
         | None \<Rightarrow>
             (let (t2, h2) = app (w_func w) a h1
              in (t2, h2, [RanLogic (w_func w) a])))"

text \<open>
  The first statement of the \<^verbatim>\<open>catch\<close> block, on the thrown value \<open>v\<close>:
  \<^verbatim>\<open>
  if(!(e instanceof Error))
    e = new Error(e);
  \<close>
  The result is the address of the error \<open>e\<close> then holds (\<open>Inr\<close>), or what the
  conversion inside \<^verbatim>\<open>new Error(e)\<close> threw (\<open>Inl\<close>).
\<close>

definition normalise :: "converter \<Rightarrow> capture \<Rightarrow> jsval \<Rightarrow> heap \<Rightarrow> (jsval + nat) \<times> heap" where
  "normalise conv cap v h =
     (case v of ErrRef e \<Rightarrow> (Inr e, h) | _ \<Rightarrow> new_Error conv (cap 69) v h)"

text \<open>
  The \<^verbatim>\<open>catch\<close> block, entered with the thrown value \<open>v\<close>; \<open>cb\<close> is the closure's
  variable as the \<^verbatim>\<open>try\<close> block left it.
  \<^verbatim>\<open>
  catch(e) {
    if(!(e instanceof Error))
      e = new Error(e);
    e.prev = prev;
    if(!cb)
      throw new Error('missing callback');
    cb(e);
  }
  \<close>
  Nothing in it catches: what the conversion, the \<^verbatim>\<open>throw\<close> or the handler throws
  leaves the function.
\<close>

definition catch_block ::
  "converter \<Rightarrow> applier \<Rightarrow> capture \<Rightarrow> wrapper \<Rightarrow> jsval \<Rightarrow> heap
     \<Rightarrow> jsval option \<times> heap \<times> event list" where
  "catch_block conv app cap w v h =
     (case normalise conv cap v h of
        (Inl x, h1) \<Rightarrow> (Some x, h1, [])
      | (Inr e, h1) \<Rightarrow>
          (let h2 = set_prev e (w_prev w) h1
           in if \<not> truthy (w_cb w) then
                (let (m, h3) = alloc_Error (cap 75) ''missing callback'' h2
                 in (Some (ErrRef m), h3, []))
              else
                (let (t, h3) = app (w_cb w) [ErrRef e] h2
                 in (t, h3, [Delivered (w_cb w) [ErrRef e]]))))"

text \<open>One invocation of the function \<^verbatim>\<open>_x\<close> returned, with the arguments \<open>a\<close>.\<close>

definition invoke ::
  "converter \<Rightarrow> applier \<Rightarrow> capture \<Rightarrow> wrapper \<Rightarrow> jsval list \<Rightarrow> heap \<Rightarrow> outcome" where
  "invoke conv app cap w a h =
     (let w1 = w\<lparr>w_cb := resolve_cb (w_cb w) a\<rparr>;
          (t, h1, ev) = try_block conv app cap w1 a h
      in case t of
           None \<Rightarrow> \<lparr>thrown = None, store = h1, closure = w1, events = ev\<rparr>
         | Some v \<Rightarrow>
             (let (t2, h2, ev2) = catch_block conv app cap w1 v h1
              in \<lparr>thrown = t2, store = h2, closure = w1, events = ev @ ev2\<rparr>))"

text \<open>
  Successive invocations of one instance: each starts from the closure and the store the
  one before left. The result lists the outcomes, oldest first.
\<close>

fun invoke_all ::
  "converter \<Rightarrow> applier \<Rightarrow> capture \<Rightarrow> wrapper \<Rightarrow> jsval list list \<Rightarrow> heap \<Rightarrow> outcome list" where
  "invoke_all conv app cap w [] h = []"
| "invoke_all conv app cap w (a # as) h =
     (let r = invoke conv app cap w a h
      in r # invoke_all conv app cap (closure r) as (store r))"

subsection \<open>\<^verbatim>\<open>leanStacks\<close>: the lean stack traces\<close>

text \<open>
  \<^verbatim>\<open>leanStacks(hiding, prettyMeta, frameSeparator, fiberSeparator)\<close> installs
  \<^verbatim>\<open>Error.prepareStackTrace\<close>, which closes over the four arguments. A separator
  that was not passed is \<open>None\<close>.
\<close>

record config =
  hiding :: bool
  prettyMeta :: jsval
  frameSeparator :: "string option"
  fiberSeparator :: "string option"

definition leanStacks :: "bool \<Rightarrow> jsval \<Rightarrow> string option \<Rightarrow> string option \<Rightarrow> config" where
  "leanStacks hid pm fsep fibsep =
     \<lparr>hiding = hid, prettyMeta = pm, frameSeparator = fsep, fiberSeparator = fibsep\<rparr>"

text \<open>\<^verbatim>\<open>sep || dflt\<close>: an absent or empty separator gives the default.\<close>

definition sep_or :: "string option \<Rightarrow> string \<Rightarrow> string" where
  "sep_or sep dflt = (case sep of None \<Rightarrow> dflt | Some x \<Rightarrow> if x = [] then dflt else x)"

text \<open>
  \<^verbatim>\<open>s.replace(re, rep)\<close> for a regular expression that matches the literal text
  \<open>pat\<close> (the working directory with every special character escaped): the first
  occurrence is replaced.
\<close>

fun replace_first :: "string \<Rightarrow> string \<Rightarrow> string \<Rightarrow> string" where
  "replace_first pat rep [] = (if pat = [] then rep else [])"
| "replace_first pat rep (c # cs) =
     (if prefix pat (c # cs) then rep @ drop (length pat) (c # cs)
      else c # replace_first pat rep cs)"

text \<open>\<^verbatim>\<open>s.replace(/pat/g, rep)\<close> for a literal, non-empty \<open>pat\<close>: every occurrence, left to right.\<close>

function replace_all :: "string \<Rightarrow> string \<Rightarrow> string \<Rightarrow> string" where
  "replace_all pat rep [] = []"
| "replace_all pat rep (c # cs) =
     (if pat \<noteq> [] \<and> prefix pat (c # cs)
      then rep @ replace_all pat rep (drop (length pat) (c # cs))
      else c # replace_all pat rep cs)"
  by pat_completeness auto
termination
  by (relation "measure (\<lambda>(pat, rep, s). length s)") auto

text \<open>
  \<^verbatim>\<open>var n = (f.getFileName() || '?').replace(cwd, '.').replace(/node_modules/g, '$');\<close>
\<close>

definition shortName :: "string \<Rightarrow> frame \<Rightarrow> string" where
  "shortName cwd f =
     replace_all ''node_modules'' ''$''
       (replace_first cwd ''.''
          (case getFileName f of None \<Rightarrow> ''?'' | Some x \<Rightarrow> if x = [] then ''?'' else x))"

text \<open>
  \<^verbatim>\<open>/.*?laeh2.js$/.exec(n)\<close>: the text ends with \<^verbatim>\<open>laeh2\<close>, one character that is
  not a line terminator (the dot is not escaped), and \<^verbatim>\<open>js\<close>.
\<close>

definition matches_laeh2 :: "string \<Rightarrow> bool" where
  "matches_laeh2 n =
     (let k = length n
      in 8 \<le> k \<and> take 5 (drop (k - 8) n) = ''laeh2''
         \<and> n ! (k - 3) \<noteq> CHR 0x0A \<and> n ! (k - 3) \<noteq> CHR 0x0D
         \<and> drop (k - 2) n = ''js'')"

text \<open>
  \<^verbatim>\<open>
  var c = n.charAt(0);
  if(hiding && ((c !== '.' && c !== '/') || /.*?laeh2.js$/.exec(n)))
    continue;
  \<close>
\<close>

definition skipped :: "bool \<Rightarrow> string \<Rightarrow> bool" where
  "skipped hid n =
     (let c = take 1 n
      in hid \<and> ((c \<noteq> ''.'' \<and> c \<noteq> ''/'') \<or> matches_laeh2 n))"

text \<open>
  \<^verbatim>\<open>var ln = (f.getLineNumber() || '?') + (f.isEval() ? '*' : '') + (f.isNative() ? '+' : '');\<close>
\<close>

definition lineText :: "frame \<Rightarrow> string" where
  "lineText f =
     (case getLineNumber f of None \<Rightarrow> ''?'' | Some k \<Rightarrow> if k = 0 then ''?'' else show_nat k)
     @ (if isEval f then ''*'' else [])
     @ (if isNative f then ''+'' else [])"

text \<open>
  The end of a turn of the first loop, on the variables \<open>stack\<close> and \<open>prev\<close>, for a
  frame that is not skipped:
  \<^verbatim>\<open>
  if(prev == n)
    stack[stack.length - 1] += ' < ' + ln;
  else
    stack.push(n + '(' + ln);
  prev = n;
  \<close>
  With an empty \<open>stack\<close> the assignment to index -1 would leave the array as it is.
\<close>

definition push_line ::
  "string list \<times> string option \<Rightarrow> string \<Rightarrow> string \<Rightarrow> string list \<times> string option" where
  "push_line st n ln =
     (let stack = fst st
      in if snd st = Some n then
           (if stack = [] then (stack, Some n)
            else (butlast stack @ [last stack @ '' < '' @ ln], Some n))
         else (stack @ [n @ ''('' @ ln], Some n))"

text \<open>One turn of the first loop.\<close>

definition frame_step ::
  "bool \<Rightarrow> string \<Rightarrow> string list \<times> string option \<Rightarrow> frame \<Rightarrow> string list \<times> string option" where
  "frame_step hid cwd st f =
     (let n = shortName cwd f
      in if skipped hid n then st else push_line st n (lineText f))"

text \<open>Both loops: the entries of \<open>stack\<close>, each closed with its parenthesis.\<close>

definition frame_entries :: "bool \<Rightarrow> string \<Rightarrow> frame list \<Rightarrow> string list" where
  "frame_entries hid cwd s =
     map (\<lambda>x. x @ '')'') (fst (foldl (frame_step hid cwd) ([], None) s))"

text \<open>\<^verbatim>\<open>stack.join(fs)\<close>\<close>

fun join :: "string \<Rightarrow> string list \<Rightarrow> string" where
  "join sep [] = []"
| "join sep [x] = x"
| "join sep (x # y # ys) = x @ sep @ join sep (y # ys)"

text \<open>
  What the installed function takes from the engine. \<open>JSON_stringify js v indent\<close> is
  \<^verbatim>\<open>JSON.stringify(v, null, indent)\<close> and \<open>String js v\<close> is \<^verbatim>\<open>String(v)\<close>: each
  gives the text that goes into the concatenation (\<open>Inr\<close>), or throws a value (\<open>Inl\<close>),
  as \<^verbatim>\<open>JSON.stringify\<close> does on a cyclic object or on a big integer.
  \<open>stack_property js p\<close> is the text the engine gives when the installed function reads
  the \<^verbatim>\<open>stack\<close> property of the error at address \<open>p\<close>. How and when the engine
  formats that property (by the installed function or in its own format, at the first
  read or at every read) is not the library's code, so the text is taken as it comes.
\<close>

record engine =
  JSON_stringify :: "jsval \<Rightarrow> jsval \<Rightarrow> jsval + string"
  String :: "jsval \<Rightarrow> jsval + string"
  stack_property :: "nat \<Rightarrow> string"

text \<open>\<^verbatim>\<open>String(e.meta)\<close>: the text the language fixes, or else the engine's.\<close>

definition text_of :: "engine \<Rightarrow> jsval \<Rightarrow> jsval + string" where
  "text_of js v = (case plain_text v of Some t \<Rightarrow> Inr t | None \<Rightarrow> String js v)"

text \<open>
  The function installed as \<^verbatim>\<open>Error.prepareStackTrace\<close>, applied to the error \<open>e\<close> and
  its structured stack \<open>s\<close>. It returns the text (\<open>Inr\<close>), or throws what a builtin
  threw (\<open>Inl\<close>): it has no \<^verbatim>\<open>try\<close>.
  \<^verbatim>\<open>
  var msg = '';
  if(e.message)
    msg += e.message + fs;
  if(e.meta)
    msg += (typeof(e.meta) === 'object' ?
      JSON.stringify(e.meta, null, prettyMeta) : String(e.meta)) + ' ';
  msg += stack.join(fs);
  if(e.prev)
    msg += (fiberSeparator || ' << ') + e.prev.stack;
  return msg;
  \<close>
\<close>

definition prepareStackTrace ::
  "config \<Rightarrow> string \<Rightarrow> engine \<Rightarrow> errobj \<Rightarrow> frame list \<Rightarrow> jsval + string" where
  "prepareStackTrace cfg cwd js e s =
     (let fs = sep_or (frameSeparator cfg) '' < '';
          stack = frame_entries (hiding cfg) cwd s;
          msg1 = (if message e \<noteq> [] then message e @ fs else [])
      in case (if truthy (meta e)
               then (case (if typeof_object (meta e)
                           then JSON_stringify js (meta e) (prettyMeta cfg)
                           else text_of js (meta e)) of
                       Inl x \<Rightarrow> Inl x
                     | Inr t \<Rightarrow> Inr (msg1 @ t @ '' ''))
               else Inr msg1) of
           Inl x \<Rightarrow> Inl x
         | Inr msg2 \<Rightarrow>
             (let msg3 = msg2 @ join fs stack
              in Inr (case prev e of
                        Some p \<Rightarrow> msg3 @ sep_or (fiberSeparator cfg) '' << '' @ stack_property js p
                      | None \<Rightarrow> msg3)))"

subsection \<open>Notions the properties are stated with\<close>

text \<open>
  The frames the first loop does not skip, in order, each as its shortened file location
  and its line text.
\<close>

definition survivors :: "bool \<Rightarrow> string \<Rightarrow> frame list \<Rightarrow> (string \<times> string) list" where
  "survivors hid cwd s =
     map (\<lambda>f. (shortName cwd f, lineText f))
       (filter (\<lambda>f. \<not> skipped hid (shortName cwd f)) s)"

text \<open>
  The maximal runs of consecutive entries with the same file location, as the
  specification words the coalescing: each run is its location and the line texts of
  the run, in order. This definition follows the specification, not the loop.
\<close>

function coalesce_runs :: "(string \<times> string) list \<Rightarrow> (string \<times> string list) list" where
  "coalesce_runs [] = []"
| "coalesce_runs ((n, l) # xs) =
     (n, l # map snd (takeWhile (\<lambda>x. fst x = n) xs))
       # coalesce_runs (dropWhile (\<lambda>x. fst x = n) xs)"
  by pat_completeness auto
termination
  by (relation "measure length") (auto simp: length_dropWhile_le less_Suc_eq_le)

text \<open>A frame entry as the output format gives it: the location and, in parentheses, the lines.\<close>

definition entry_text :: "string \<Rightarrow> string \<times> string list \<Rightarrow> string" where
  "entry_text sep g = fst g @ ''('' @ join sep (snd g) @ '')''"

text \<open>
  A chain of linked errors in the store: each error's \<^verbatim>\<open>prev\<close> is the next address of
  the list, and the last error has none.
\<close>

fun is_chain :: "heap \<Rightarrow> nat list \<Rightarrow> bool" where
  "is_chain h [] = False"
| "is_chain h [a] = (a < length h \<and> prev (h ! a) = None)"
| "is_chain h (a # b # bs) = (a < length h \<and> prev (h ! a) = Some b \<and> is_chain h (b # bs))"

text \<open>
  One error crossing several boundaries: the error at address \<open>e\<close> is passed as the
  error-first argument to each wrapper of the list in turn, each invocation starting
  from the store the one before left.
\<close>

fun cross ::
  "converter \<Rightarrow> applier \<Rightarrow> capture \<Rightarrow> wrapper list \<Rightarrow> nat \<Rightarrow> heap \<Rightarrow> heap" where
  "cross conv app cap [] e h = h"
| "cross conv app cap (w # ws) e h =
     cross conv app cap ws e (store (invoke conv app cap w [ErrRef e] h))"

fun is_delivery :: "event \<Rightarrow> bool" where
  "is_delivery (Delivered f args) = True"
| "is_delivery (RanLogic f args) = False"

subsection \<open>Concrete callers, for the examples\<close>

definition frame_at :: "string \<Rightarrow> nat \<Rightarrow> frame" where
  "frame_at file l =
     \<lparr>getFileName = Some file, getLineNumber = Some l, isEval = False, isNative = False\<rparr>"

text \<open>A caller in /app/main.js: every capture is the library's own frame and the caller's.\<close>

definition cap_ex :: capture where
  "cap_ex l = [frame_at ''/app/node_modules/laeh2/lib/laeh2.js'' l, frame_at ''/app/main.js'' 9]"

text \<open>
  Two objects with a \<^verbatim>\<open>toString\<close> of their own: the one of \<open>bad_ex\<close> throws the
  number 1, the one of \<open>worse_ex\<close> throws \<open>bad_ex\<close>.
\<close>

definition bad_ex :: jsval where
  "bad_ex = Obj [(''toString'', Fn 8 ''function () { throw 1; }'')]"

definition worse_ex :: jsval where
  "worse_ex = Obj [(''toString'', Fn 9 ''function () { throw bad; }'')]"

text \<open>The decimal text of an integer: what the engine prints for one below \<open>2^53\<close> in magnitude.\<close>

definition int_text :: "int \<Rightarrow> string" where
  "int_text n = (if n < 0 then ''-'' @ show_nat (nat (- n)) else show_nat (nat n))"

text \<open>
  The conversion in the examples: it is the engine's on the two objects above, on an
  object without a \<^verbatim>\<open>toString\<close> of its own and on an integer below \<open>2^53\<close> in
  magnitude. The examples convert no other value.
\<close>

definition conv_ex :: converter where
  "conv_ex v h =
     (if v = bad_ex then (Inl (Num 1), h)
      else if v = worse_ex then (Inl bad_ex, h)
      else (case v of Num n \<Rightarrow> (Inr (int_text n), h) | _ \<Rightarrow> (Inr ''[object Object]'', h)))"

text \<open>
  The functions of the examples: function 1 throws the string \<^verbatim>\<open>boom\<close>, function 4
  throws the object \<open>bad_ex\<close>, function 5 throws its first argument; every other
  function returns and changes nothing.
\<close>

definition app_ex :: applier where
  "app_ex f args h =
     (case f of
        Fn i src \<Rightarrow>
          if i = 1 then (Some (Str ''boom''), h)
          else if i = 4 then (Some bad_ex, h)
          else if i = 5 then (Some (arg0 args), h)
          else (None, h)
      | _ \<Rightarrow> (None, h))"

definition logic_ex :: jsval where
  "logic_ex = Fn 1 ''function (err, data) { throw 'boom'; }''"

definition handler_ex :: jsval where
  "handler_ex = Fn 2 ''function (err) { }''"

definition other_handler_ex :: jsval where
  "other_handler_ex = Fn 3 ''function (err) { }''"

definition bad_logic_ex :: jsval where
  "bad_logic_ex = Fn 4 ''function (err, data) { throw bad; }''"

definition rethrow_ex :: jsval where
  "rethrow_ex = Fn 5 ''function (err) { throw err; }''"

text \<open>
  The engine in the examples. \<open>json_ex\<close> is \<^verbatim>\<open>JSON.stringify\<close> without indent on
  values built from null, booleans, integers below \<open>2^53\<close> in magnitude, strings and
  objects of these, where no string or property name has a quote, a backslash or a
  control character; a property whose value is undefined or a function is left out, as
  \<^verbatim>\<open>JSON.stringify\<close> does, and a big integer makes it throw (the value thrown, a
  \<^verbatim>\<open>TypeError\<close>, stands at address 0 here). \<open>String\<close> is the engine's on such
  integers, on big integers, on a function with its source text and on an object without
  a \<^verbatim>\<open>toString\<close> of its own. The examples apply the two to no other value, and never
  with an indent.
\<close>

definition quote_ex :: "string \<Rightarrow> string" where
  "quote_ex x = [CHR 0x22] @ x @ [CHR 0x22]"

datatype json_result = Text string | Omitted | Throws

fun json_ex :: "jsval \<Rightarrow> json_result"
  and json_props_ex :: "(string \<times> jsval) list \<Rightarrow> string list option" where
  "json_ex Null = Text ''null''"
| "json_ex (Bool b) = Text (if b then ''true'' else ''false'')"
| "json_ex (Num n) = Text (int_text n)"
| "json_ex (Str x) = Text (quote_ex x)"
| "json_ex (BigInt n) = Throws"
| "json_ex (Obj ps) =
     (case json_props_ex ps of
        None \<Rightarrow> Throws
      | Some ts \<Rightarrow> Text (''{'' @ join '','' ts @ ''}''))"
| "json_ex v = Omitted"
| "json_props_ex [] = Some []"
| "json_props_ex (p # ps) =
     (case json_ex (snd p) of
        Throws \<Rightarrow> None
      | Omitted \<Rightarrow> json_props_ex ps
      | Text t \<Rightarrow>
          (case json_props_ex ps of
             None \<Rightarrow> None
           | Some ts \<Rightarrow> Some ((quote_ex (fst p) @ '':'' @ t) # ts)))"

text \<open>
  What a current engine gives for the \<^verbatim>\<open>stack\<close> of an origin error when the installed
  function reads it: the text in the engine's own format, not made by the installed
  function.
\<close>

definition engine_text_ex :: string where
  "engine_text_ex =
     ''Error'' @ [CHR 0x0A]
     @ ''    at _x (/app/node_modules/laeh2/lib/laeh2.js:52:13)'' @ [CHR 0x0A]
     @ ''    at /app/ex6.js:7:3''"

definition engine_ex :: engine where
  "engine_ex =
     \<lparr>JSON_stringify =
        (\<lambda>v indent. case json_ex v of
                       Text t \<Rightarrow> Inr t
                     | Omitted \<Rightarrow> Inr ''undefined''
                     | Throws \<Rightarrow> Inl (ErrRef 0)),
      String =
        (\<lambda>v. case v of
               Num n \<Rightarrow> Inr (int_text n)
             | BigInt n \<Rightarrow> Inr (int_text n)
             | Fn i src \<Rightarrow> Inr src
             | _ \<Rightarrow> Inr ''[object Object]''),
      stack_property = (\<lambda>p. engine_text_ex)\<rparr>"

text \<open>An error object with the given message and captured stack, nothing attached.\<close>

definition error_ex :: "string \<Rightarrow> frame list \<Rightarrow> errobj" where
  "error_ex m st = \<lparr>message = m, meta = Undefined, prev = None, captured = st\<rparr>"

text \<open>
  The error \<^verbatim>\<open>_x\<close> creates to capture the origin, and two instances as
  \<^verbatim>\<open>_x(handler, true, logic)\<close> and \<^verbatim>\<open>_x(undefined, true, logic)\<close> return
  them in the empty store.
\<close>

definition origin_ex :: errobj where
  "origin_ex = error_ex [] (cap_ex 52)"

definition wrapper_ex :: wrapper where
  "wrapper_ex = \<lparr>w_cb = handler_ex, w_chk = Bool True, w_func = logic_ex, w_prev = 0\<rparr>"

definition lazy_ex :: wrapper where
  "lazy_ex = \<lparr>w_cb = Undefined, w_chk = Bool True, w_func = logic_ex, w_prev = 0\<rparr>"

text \<open>
  A captured stack: the library's own frame, two frames of /app/ex6.js and three frames
  of the Node.js core. The working directory is /app.
\<close>

definition stack_ex :: "frame list" where
  "stack_ex =
     [frame_at ''/app/node_modules/laeh2/lib/laeh2.js'' 45,
      frame_at ''/app/ex6.js'' 7, frame_at ''/app/ex6.js'' 13,
      frame_at ''module.js'' 432, frame_at ''module.js'' 450,
      frame_at ''node.js'' 192]"

text \<open>
  A store with an error thrown on line 9 and the origin errors of three instances,
  captured on lines 10, 20 and 30; \<open>boundary_ex p\<close> is the instance whose origin is at
  address \<open>p\<close>.
\<close>

definition chain_store_ex :: heap where
  "chain_store_ex =
     [error_ex ''boom'' [frame_at ''/app/ex6.js'' 9],
      error_ex [] [frame_at ''/app/ex6.js'' 10],
      error_ex [] [frame_at ''/app/ex6.js'' 20],
      error_ex [] [frame_at ''/app/ex6.js'' 30]]"

definition boundary_ex :: "nat \<Rightarrow> wrapper" where
  "boundary_ex p = \<lparr>w_cb = handler_ex, w_chk = Bool True, w_func = logic_ex, w_prev = p\<rparr>"

text \<open>
  Nesting: function 7 is the instance \<open>boundary_ex 2\<close> itself, and \<open>inner_ex\<close> is an
  instance that has it as completion handler, as in
  \<^verbatim>\<open>_x(_x(handler, true, logic), true, logic)\<close>.
\<close>

definition outer_ex :: jsval where
  "outer_ex = Fn 7 ''function () { try { ... } catch(e) { ... } }''"

definition app_nested_ex :: applier where
  "app_nested_ex f args h =
     (if f = outer_ex
      then (let r = invoke conv_ex app_ex cap_ex (boundary_ex 2) args h
            in (thrown r, store r))
      else app_ex f args h)"

definition inner_ex :: wrapper where
  "inner_ex = \<lparr>w_cb = outer_ex, w_chk = Bool True, w_func = logic_ex, w_prev = 1\<rparr>"

section \<open>Properties\<close>

subsection \<open>\<^verbatim>\<open>_e\<close>\<close>

lemma new_Error_Undefined:
  "new_Error conv st Undefined h =
     (Inr (length h), h @ [\<lparr>message = [], meta = Undefined, prev = None, captured = st\<rparr>])"
  by (simp add: new_Error_def alloc_Error_def)

lemma new_Error_text:
  "v \<noteq> Undefined \<Longrightarrow> ToString conv v h = (Inr t, h1) \<Longrightarrow>
   new_Error conv st v h =
     (Inr (length h1), h1 @ [\<lparr>message = t, meta = Undefined, prev = None, captured = st\<rparr>])"
  by (simp add: new_Error_def alloc_Error_def)

lemma new_Error_throws:
  "v \<noteq> Undefined \<Longrightarrow> ToString conv v h = (Inl x, h1) \<Longrightarrow>
   new_Error conv st v h = (Inl x, h1)"
  by (simp add: new_Error_def)

lemma laeh_e_Error:
  "x < length h \<Longrightarrow> laeh_e conv cap (ErrRef x) Undefined h = (Some (ErrRef x), h)"
  by (simp add: laeh_e_def)

lemma laeh_e_text:
  "truthy v \<Longrightarrow> \<not> instanceof_Error v \<Longrightarrow> ToString conv v h = (Inr t, h2) \<Longrightarrow>
   laeh_e conv cap v Undefined h =
     (Some (ErrRef (length h2)),
      h2 @ [\<lparr>message = t, meta = Undefined, prev = None, captured = cap 31\<rparr>])"
  using new_Error_text [of v conv h t h2 "cap 31"]
  by (cases v) (simp_all add: laeh_e_def)

lemma laeh_e_conversion_throws:
  "truthy v \<Longrightarrow> \<not> instanceof_Error v \<Longrightarrow> ToString conv v h = (Inl x, h2) \<Longrightarrow>
   laeh_e conv cap v mt h = (Some x, h2)"
  using new_Error_throws [of v conv h x h2 "cap 31"]
  by (cases v) (simp_all add: laeh_e_def)

lemma laeh_e_throws_some:
  "truthy v \<Longrightarrow> \<exists>x h1. laeh_e conv cap v mt h = (Some x, h1)"
  by (auto simp: laeh_e_def split: prod.splits sum.splits)

text \<open>
  C4, as the code has it. \<^verbatim>\<open>_e\<close> returns and leaves the store alone for every falsy
  first argument. A truthy one that is not an \<^verbatim>\<open>Error\<close> is converted to a string by
  \<^verbatim>\<open>new Error(e)\<close>: when the conversion returns the text \<open>t\<close>, \<^verbatim>\<open>_e\<close> throws a
  fresh \<^verbatim>\<open>Error\<close> with the message \<open>t\<close>; when the conversion throws \<open>x\<close>, \<open>x\<close> is
  what \<^verbatim>\<open>_e\<close> throws, no \<^verbatim>\<open>Error\<close> is made and no metadata attached. An
  \<^verbatim>\<open>Error\<close> is thrown as it is. The metadata is attached, over whatever was attached
  before, only when it is truthy: a falsy metadata argument is as none. The string form
  of a string is the string itself.
\<close>

theorem laeh_e_contract:
  "(\<not> truthy e \<longrightarrow> laeh_e conv cap e mt h = (None, h))
   \<and> (truthy e \<and> \<not> instanceof_Error e \<and> ToString conv e h = (Inr t, h1) \<longrightarrow>
        laeh_e conv cap e mt h =
          (Some (ErrRef (length h1)),
           h1 @ [\<lparr>message = t, meta = (if truthy mt then mt else Undefined),
                   prev = None, captured = cap 31\<rparr>]))
   \<and> (truthy e \<and> \<not> instanceof_Error e \<and> ToString conv e h = (Inl x, h1) \<longrightarrow>
        laeh_e conv cap e mt h = (Some x, h1))
   \<and> (a < length h \<longrightarrow>
        laeh_e conv cap (ErrRef a) mt h =
          (Some (ErrRef a), if truthy mt then h[a := (h ! a)\<lparr>meta := mt\<rparr>] else h))
   \<and> ToString conv (Str s) h = (Inr s, h)"
proof (intro conjI impI)
  assume "\<not> truthy e"
  then show "laeh_e conv cap e mt h = (None, h)"
    by (simp add: laeh_e_def)
next
  assume e: "truthy e \<and> \<not> instanceof_Error e \<and> ToString conv e h = (Inr t, h1)"
  then have ne: "e \<noteq> Undefined" by auto
  from e have "new_Error conv (cap 31) e h =
      (Inr (length h1), h1 @ [\<lparr>message = t, meta = Undefined, prev = None, captured = cap 31\<rparr>])"
    using ne by (simp add: new_Error_text)
  with e show "laeh_e conv cap e mt h =
          (Some (ErrRef (length h1)),
           h1 @ [\<lparr>message = t, meta = (if truthy mt then mt else Undefined),
                   prev = None, captured = cap 31\<rparr>])"
    by (cases e) (simp_all add: laeh_e_def set_meta_def)
next
  assume e: "truthy e \<and> \<not> instanceof_Error e \<and> ToString conv e h = (Inl x, h1)"
  then have ne: "e \<noteq> Undefined" by auto
  from e have "new_Error conv (cap 31) e h = (Inl x, h1)"
    using ne by (simp add: new_Error_throws)
  with e show "laeh_e conv cap e mt h = (Some x, h1)"
    by (cases e) (simp_all add: laeh_e_def)
next
  assume "a < length h"
  then show "laeh_e conv cap (ErrRef a) mt h =
          (Some (ErrRef a), if truthy mt then h[a := (h ! a)\<lparr>meta := mt\<rparr>] else h)"
    by (simp add: laeh_e_def set_meta_def)
next
  show "ToString conv (Str s) h = (Inr s, h)"
    by (simp add: ToString_def)
qed

text \<open>
  \<^verbatim>\<open>_e(null, {a:1})\<close> returns; \<^verbatim>\<open>_e('boom', {a:1})\<close> throws a fresh error with the
  metadata; \<^verbatim>\<open>_e(bad, {a:1})\<close> throws the number 1, which the \<^verbatim>\<open>toString\<close> of
  \<open>bad_ex\<close> throws; an error that has metadata gets the new one.
\<close>

theorem laeh_e_contract_witness:
  "laeh_e conv_ex cap_ex Null (Obj [(''a'', Num 1)]) [] = (None, [])
   \<and> laeh_e conv_ex cap_ex (Str ''boom'') (Obj [(''a'', Num 1)]) [] =
       (Some (ErrRef 0),
        [\<lparr>message = ''boom'', meta = Obj [(''a'', Num 1)], prev = None, captured = cap_ex 31\<rparr>])
   \<and> laeh_e conv_ex cap_ex bad_ex (Obj [(''a'', Num 1)]) [] = (Some (Num 1), [])
   \<and> laeh_e conv_ex cap_ex (ErrRef 0) (Str ''new'') [(error_ex ''old'' [])\<lparr>meta := Str ''first''\<rparr>] =
       (Some (ErrRef 0), [(error_ex ''old'' [])\<lparr>meta := Str ''new''\<rparr>])"
proof -
  have b: "ToString conv_ex bad_ex [] = (Inl (Num 1), [])"
    by (simp add: ToString_def bad_ex_def conv_ex_def)
  have t: "truthy bad_ex \<and> \<not> instanceof_Error bad_ex"
    by (simp add: bad_ex_def)
  from laeh_e_contract [of Null conv_ex cap_ex "Obj [(''a'', Num 1)]" "[]"]
  have 1: "laeh_e conv_ex cap_ex Null (Obj [(''a'', Num 1)]) [] = (None, [])"
    by simp
  from laeh_e_contract [of "Str ''boom''" conv_ex cap_ex "Obj [(''a'', Num 1)]" "[]" "''boom''" "[]"]
  have 2: "laeh_e conv_ex cap_ex (Str ''boom'') (Obj [(''a'', Num 1)]) [] =
       (Some (ErrRef 0),
        [\<lparr>message = ''boom'', meta = Obj [(''a'', Num 1)], prev = None, captured = cap_ex 31\<rparr>])"
    by (simp add: ToString_def)
  from laeh_e_contract [of bad_ex conv_ex cap_ex "Obj [(''a'', Num 1)]" "[]" _ "[]" "Num 1"] b t
  have 3: "laeh_e conv_ex cap_ex bad_ex (Obj [(''a'', Num 1)]) [] = (Some (Num 1), [])"
    by simp
  from laeh_e_contract [where e = Null and conv = conv_ex and cap = cap_ex and a = 0
      and mt = "Str ''new''" and h = "[(error_ex ''old'' [])\<lparr>meta := Str ''first''\<rparr>]"]
  have 4: "laeh_e conv_ex cap_ex (ErrRef 0) (Str ''new'') [(error_ex ''old'' [])\<lparr>meta := Str ''first''\<rparr>] =
       (Some (ErrRef 0), [(error_ex ''old'' [])\<lparr>meta := Str ''new''\<rparr>])"
    by (simp add: error_ex_def)
  from 1 2 3 4 show ?thesis by simp
qed

text \<open>
  C4 as stated attaches the metadata whenever it is supplied, and raises an \<^verbatim>\<open>Error\<close>
  for every non-falsy input. \<^verbatim>\<open>_e('boom', 0)\<close> throws an error without metadata;
  \<^verbatim>\<open>_e(bad)\<close> throws the number 1, which is not an \<^verbatim>\<open>Error\<close>.
\<close>

theorem laeh_e_falsy_meta_counterexample:
  "fst (laeh_e conv_ex cap_ex (Str ''boom'') (Num 0) []) = Some (ErrRef 0)
   \<and> meta (snd (laeh_e conv_ex cap_ex (Str ''boom'') (Num 0) []) ! 0) = Undefined
   \<and> meta (snd (laeh_e conv_ex cap_ex (Str ''boom'') (Num 0) []) ! 0) \<noteq> Num 0
   \<and> laeh_e conv_ex cap_ex bad_ex Undefined [] = (Some (Num 1), [])
   \<and> \<not> instanceof_Error (Num 1)"
  by (simp add: laeh_e_def new_Error_def alloc_Error_def ToString_def bad_ex_def conv_ex_def
      worse_ex_def)

subsection \<open>\<^verbatim>\<open>_x\<close>: the invocation of an instance\<close>

lemma laeh_x_built:
  assumes "laeh_x cap cb chk func h = (Inr w, hc)"
  shows "w = \<lparr>w_cb = cb, w_chk = chk, w_func = func, w_prev = length h\<rparr>
     \<and> hc = h @ [\<lparr>message = [], meta = Undefined, prev = None, captured = cap 52\<rparr>]"
  using assms
  by (auto simp: laeh_x_def alloc_Error_def Let_def split: if_splits)

lemma normalise_Error: "normalise conv cap (ErrRef x) h = (Inr x, h)"
  by (simp add: normalise_def)

lemma normalise_Undefined:
  "normalise conv cap Undefined h =
     (Inr (length h), h @ [\<lparr>message = [], meta = Undefined, prev = None, captured = cap 69\<rparr>])"
  by (simp add: normalise_def new_Error_Undefined)

lemma normalise_text:
  "\<not> instanceof_Error v \<Longrightarrow> v \<noteq> Undefined \<Longrightarrow> ToString conv v h = (Inr t, h2) \<Longrightarrow>
   normalise conv cap v h =
     (Inr (length h2), h2 @ [\<lparr>message = t, meta = Undefined, prev = None, captured = cap 69\<rparr>])"
  by (cases v) (simp_all add: normalise_def new_Error_text)

lemma normalise_throws:
  "\<not> instanceof_Error v \<Longrightarrow> v \<noteq> Undefined \<Longrightarrow> ToString conv v h = (Inl x, h2) \<Longrightarrow>
   normalise conv cap v h = (Inl x, h2)"
  by (cases v) (simp_all add: normalise_def new_Error_throws)

lemma new_Error_valid: "new_Error conv st v h = (Inr e, hn) \<Longrightarrow> e < length hn"
  by (auto simp: new_Error_def alloc_Error_def split: if_splits prod.splits sum.splits)

lemma normalise_valid:
  "\<forall>x. v = ErrRef x \<longrightarrow> x < length h \<Longrightarrow> normalise conv cap v h = (Inr e, hn) \<Longrightarrow>
   e < length hn"
  by (cases v) (auto simp: normalise_def dest: new_Error_valid)

lemma try_block_cb:
  "try_block conv app cap (w\<lparr>w_cb := c\<rparr>) a h = try_block conv app cap w a h"
  by (simp add: try_block_def Let_def split: prod.splits option.splits)

lemma try_block_events:
  "try_block conv app cap w a h = (t, h1, ev) \<Longrightarrow> ev = [] \<or> ev = [RanLogic (w_func w) a]"
  by (auto simp: try_block_def Let_def split: if_splits option.splits prod.splits)

lemma try_block_no_delivery:
  "try_block conv app cap w a h = (t, h1, ev) \<Longrightarrow> filter is_delivery ev = []"
  by (drule try_block_events) auto

lemma try_block_check:
  assumes "truthy (w_chk w)" and "truthy (arg0 a)"
  shows "\<exists>v h1. laeh_e conv cap (arg0 a) Undefined h = (Some v, h1)
     \<and> try_block conv app cap w a h = (Some v, h1, [])"
proof -
  from laeh_e_throws_some [OF assms(2)] obtain v h1
    where "laeh_e conv cap (arg0 a) Undefined h = (Some v, h1)" by blast
  then show ?thesis
    using assms(1) by (simp add: try_block_def)
qed

lemma try_block_check_passes:
  "\<not> (truthy (w_chk w) \<and> truthy (arg0 a)) \<Longrightarrow>
   try_block conv app cap w a h =
     (fst (app (w_func w) a h), snd (app (w_func w) a h), [RanLogic (w_func w) a])"
  by (auto simp: try_block_def laeh_e_def split: prod.splits)

lemma invoke_raised:
  "try_block conv app cap w a h = (Some v, h1, ev) \<Longrightarrow>
   invoke conv app cap w a h =
     (case catch_block conv app cap (w\<lparr>w_cb := resolve_cb (w_cb w) a\<rparr>) v h1 of
        (t2, h2, ev2) \<Rightarrow>
          \<lparr>thrown = t2, store = h2, closure = w\<lparr>w_cb := resolve_cb (w_cb w) a\<rparr>,
             events = ev @ ev2\<rparr>)"
  by (simp add: invoke_def Let_def try_block_cb)

lemma invoke_returned:
  "try_block conv app cap w a h = (None, h1, ev) \<Longrightarrow>
   invoke conv app cap w a h =
     \<lparr>thrown = None, store = h1, closure = w\<lparr>w_cb := resolve_cb (w_cb w) a\<rparr>, events = ev\<rparr>"
  by (simp add: invoke_def Let_def try_block_cb)

lemma catch_block_throws:
  "normalise conv cap v h = (Inl x, hn) \<Longrightarrow> catch_block conv app cap w v h = (Some x, hn, [])"
  by (simp add: catch_block_def)

lemma catch_block_delivers:
  "truthy (w_cb w) \<Longrightarrow> normalise conv cap v h = (Inr e, hn) \<Longrightarrow> e < length hn \<Longrightarrow>
   catch_block conv app cap w v h =
     (fst (app (w_cb w) [ErrRef e] (hn[e := (hn ! e)\<lparr>prev := Some (w_prev w)\<rparr>])),
      snd (app (w_cb w) [ErrRef e] (hn[e := (hn ! e)\<lparr>prev := Some (w_prev w)\<rparr>])),
      [Delivered (w_cb w) [ErrRef e]])"
  by (simp add: catch_block_def set_prev_def Let_def split: prod.splits)

lemma catch_block_events:
  "catch_block conv app cap w v h = (t, h2, ev2) \<Longrightarrow> \<forall>x \<in> set ev2. is_delivery x"
  by (auto simp: catch_block_def alloc_Error_def Let_def split: prod.splits sum.splits if_splits)

lemma catch_block_target:
  "catch_block conv app cap w v h = (t, h2, ev2) \<Longrightarrow>
   ev2 = [] \<or> (\<exists>e. ev2 = [Delivered (w_cb w) [ErrRef e]])"
  by (auto simp: catch_block_def alloc_Error_def Let_def split: prod.splits sum.splits if_splits)

lemma invoke_raised_events:
  assumes "try_block conv app cap w a h = (Some v, h1, ev)"
  shows "\<exists>ev2. events (invoke conv app cap w a h) = ev @ ev2 \<and> (\<forall>x \<in> set ev2. is_delivery x)"
proof -
  obtain t2 h2 ev2 where c:
    "catch_block conv app cap (w\<lparr>w_cb := resolve_cb (w_cb w) a\<rparr>) v h1 = (t2, h2, ev2)"
    by (cases "catch_block conv app cap (w\<lparr>w_cb := resolve_cb (w_cb w) a\<rparr>) v h1") auto
  from catch_block_events [OF c] show ?thesis
    by (simp add: invoke_raised [OF assms] c)
qed

lemma invoke_deliveries:
  assumes "x \<in> set (events (invoke conv app cap w a h))" and "is_delivery x"
  shows "\<exists>e. x = Delivered (resolve_cb (w_cb w) a) [ErrRef e]"
proof -
  obtain t h1 ev where tb: "try_block conv app cap w a h = (t, h1, ev)"
    by (cases "try_block conv app cap w a h") auto
  note nd = try_block_no_delivery [OF tb]
  show ?thesis
  proof (cases t)
    case None
    with tb have "events (invoke conv app cap w a h) = ev"
      by (simp add: invoke_returned)
    with assms nd show ?thesis
      by (metis filter_empty_conv)
  next
    case (Some v)
    let ?w1 = "w\<lparr>w_cb := resolve_cb (w_cb w) a\<rparr>"
    obtain t2 h2 ev2 where c: "catch_block conv app cap ?w1 v h1 = (t2, h2, ev2)"
      by (cases "catch_block conv app cap ?w1 v h1") auto
    from tb Some have r: "try_block conv app cap w a h = (Some v, h1, ev)" by simp
    have e: "events (invoke conv app cap w a h) = ev @ ev2"
      by (simp add: invoke_raised [OF r] c)
    from assms(1) e have "x \<in> set ev \<or> x \<in> set ev2" by simp
    moreover have "x \<notin> set ev" using nd assms(2) by (metis filter_empty_conv)
    ultimately have "x \<in> set ev2" by simp
    with catch_block_target [OF c] show ?thesis by auto
  qed
qed

text \<open>
  The failure path, for each way the first statement of the catch block can end.
\<close>

lemma failure_delivered:
  assumes cb: "truthy (resolve_cb (w_cb w) a)"
    and raised: "try_block conv app cap w a h = (Some v, h1, ev)"
    and norm: "normalise conv cap v h1 = (Inr e, hn)"
    and e: "e < length hn"
  shows "events (invoke conv app cap w a h) = ev @ [Delivered (resolve_cb (w_cb w) a) [ErrRef e]]"
    and "length (filter is_delivery (events (invoke conv app cap w a h))) = 1"
    and "thrown (invoke conv app cap w a h) =
      fst (app (resolve_cb (w_cb w) a) [ErrRef e] (hn[e := (hn ! e)\<lparr>prev := Some (w_prev w)\<rparr>]))"
    and "store (invoke conv app cap w a h) =
      snd (app (resolve_cb (w_cb w) a) [ErrRef e] (hn[e := (hn ! e)\<lparr>prev := Some (w_prev w)\<rparr>]))"
proof -
  let ?w1 = "w\<lparr>w_cb := resolve_cb (w_cb w) a\<rparr>"
  have c: "truthy (w_cb ?w1)" using cb by simp
  note cbk = catch_block_delivers [OF c norm e, of app, simplified]
  note nd = try_block_no_delivery [OF raised]
  show "events (invoke conv app cap w a h) = ev @ [Delivered (resolve_cb (w_cb w) a) [ErrRef e]]"
    by (simp add: invoke_raised [OF raised] cbk)
  then show "length (filter is_delivery (events (invoke conv app cap w a h))) = 1"
    using nd by simp
  show "thrown (invoke conv app cap w a h) =
      fst (app (resolve_cb (w_cb w) a) [ErrRef e] (hn[e := (hn ! e)\<lparr>prev := Some (w_prev w)\<rparr>]))"
    by (simp add: invoke_raised [OF raised] cbk)
  show "store (invoke conv app cap w a h) =
      snd (app (resolve_cb (w_cb w) a) [ErrRef e] (hn[e := (hn ! e)\<lparr>prev := Some (w_prev w)\<rparr>]))"
    by (simp add: invoke_raised [OF raised] cbk)
qed

lemma failure_events:
  assumes cb: "truthy (resolve_cb (w_cb w) a)"
    and raised: "try_block conv app cap w a h = (Some v, h1, ev)"
    and norm: "normalise conv cap v h1 = (Inr e, hn)"
  shows "events (invoke conv app cap w a h) = ev @ [Delivered (resolve_cb (w_cb w) a) [ErrRef e]]"
  using cb
  by (simp add: invoke_raised [OF raised] catch_block_def norm Let_def split: prod.splits)

lemma failure_escapes:
  assumes raised: "try_block conv app cap w a h = (Some v, h1, ev)"
    and norm: "normalise conv cap v h1 = (Inl x, hn)"
  shows "thrown (invoke conv app cap w a h) = Some x"
    and "store (invoke conv app cap w a h) = hn"
    and "events (invoke conv app cap w a h) = ev"
  by (simp_all add: invoke_raised [OF raised] catch_block_throws [OF norm])


text \<open>
The example instances are what \<^verbatim>\<open>_x\<close> constructs.
\<close>

lemma examples_constructed:
  "laeh_x cap_ex handler_ex (Bool True) logic_ex [] = (Inr wrapper_ex, [origin_ex])"
  "laeh_x cap_ex Undefined (Bool True) logic_ex [] = (Inr lazy_ex, [origin_ex])"
  by (simp_all add: laeh_x_def alloc_Error_def handler_ex_def logic_ex_def wrapper_ex_def
      lazy_ex_def origin_ex_def error_ex_def)

lemmas ex_defs = wrapper_ex_def lazy_ex_def origin_ex_def error_ex_def handler_ex_def
  other_handler_ex_def logic_ex_def app_ex_def bad_logic_ex_def rethrow_ex_def bad_ex_def
  worse_ex_def conv_ex_def

lemmas run_defs = invoke_def try_block_def catch_block_def normalise_def laeh_e_def
  new_Error_def alloc_Error_def ToString_def set_prev_def set_meta_def resolve_cb_def arg0_def

text \<open>
  C1, as the code has it. \<open>w0\<close> is an instance as \<^verbatim>\<open>_x\<close> returns it from the store
  \<open>h0\<close>: its origin is the error \<^verbatim>\<open>_x\<close> allocated at the address \<open>length h0\<close>, with
  an empty message and the stack captured on line 52. The instance is invoked with the
  closure's \<open>cb\<close> being \<open>c\<close> (what \<^verbatim>\<open>_x\<close> was given, or what an earlier invocation
  adopted), a handler is resolvable, and the \<^verbatim>\<open>try\<close> block raises \<open>v\<close>, from the
  error-first check or from the wrapped logic. The catch block first normalises \<open>v\<close>:
  an \<^verbatim>\<open>Error\<close> is kept, \<^verbatim>\<open>undefined\<close> gives a fresh \<^verbatim>\<open>Error\<close> with an empty
  message, any other value goes through the string conversion of \<^verbatim>\<open>new Error(e)\<close>.
  When the normalisation gives the error at \<open>e\<close>, its \<^verbatim>\<open>prev\<close> is set to the origin,
  the handler is called exactly once, with that error as its only argument, and the
  invocation ends as the handler's call ends: it throws what the handler throws, and the
  wrapper adds no throw of its own. When the string conversion throws \<open>x\<close>, no handler is
  called and \<open>x\<close> leaves the invocation.
\<close>

theorem invoke_failure_delivered:
  assumes built: "laeh_x cap0 cb0 chk func h0 = (Inr w0, hc)"
    and cb: "truthy (resolve_cb c a)"
    and raised: "try_block conv app cap (w0\<lparr>w_cb := c\<rparr>) a h = (Some v, h1, ev)"
    and valid: "\<forall>x. v = ErrRef x \<longrightarrow> x < length h1"
  shows "w_prev w0 = length h0
    \<and> hc = h0 @ [\<lparr>message = [], meta = Undefined, prev = None, captured = cap0 52\<rparr>]
    \<and> (\<forall>e hn. normalise conv cap v h1 = (Inr e, hn) \<longrightarrow>
          e < length hn
        \<and> events (invoke conv app cap (w0\<lparr>w_cb := c\<rparr>) a h) =
            ev @ [Delivered (resolve_cb c a) [ErrRef e]]
        \<and> length (filter is_delivery (events (invoke conv app cap (w0\<lparr>w_cb := c\<rparr>) a h))) = 1
        \<and> thrown (invoke conv app cap (w0\<lparr>w_cb := c\<rparr>) a h) =
            fst (app (resolve_cb c a) [ErrRef e] (hn[e := (hn ! e)\<lparr>prev := Some (length h0)\<rparr>]))
        \<and> store (invoke conv app cap (w0\<lparr>w_cb := c\<rparr>) a h) =
            snd (app (resolve_cb c a) [ErrRef e] (hn[e := (hn ! e)\<lparr>prev := Some (length h0)\<rparr>])))
    \<and> (\<forall>x hn. normalise conv cap v h1 = (Inl x, hn) \<longrightarrow>
          thrown (invoke conv app cap (w0\<lparr>w_cb := c\<rparr>) a h) = Some x
        \<and> store (invoke conv app cap (w0\<lparr>w_cb := c\<rparr>) a h) = hn
        \<and> events (invoke conv app cap (w0\<lparr>w_cb := c\<rparr>) a h) = ev)
    \<and> (\<forall>x. v = ErrRef x \<longrightarrow> normalise conv cap v h1 = (Inr x, h1))
    \<and> (v = Undefined \<longrightarrow>
          normalise conv cap v h1 =
            (Inr (length h1),
             h1 @ [\<lparr>message = [], meta = Undefined, prev = None, captured = cap 69\<rparr>]))
    \<and> (\<forall>t h2. \<not> instanceof_Error v \<and> v \<noteq> Undefined \<and> ToString conv v h1 = (Inr t, h2) \<longrightarrow>
          normalise conv cap v h1 =
            (Inr (length h2),
             h2 @ [\<lparr>message = t, meta = Undefined, prev = None, captured = cap 69\<rparr>]))
    \<and> (\<forall>x h2. \<not> instanceof_Error v \<and> v \<noteq> Undefined \<and> ToString conv v h1 = (Inl x, h2) \<longrightarrow>
          normalise conv cap v h1 = (Inl x, h2))"
proof -
  let ?w = "w0\<lparr>w_cb := c\<rparr>"
  from laeh_x_built [OF built] have p: "w_prev w0 = length h0"
    and o: "hc = h0 @ [\<lparr>message = [], meta = Undefined, prev = None, captured = cap0 52\<rparr>]"
    by simp_all
  have cb': "truthy (resolve_cb (w_cb ?w) a)" using cb by simp
  have wp: "w_prev ?w = length h0" using p by simp
  have d: "e < length hn
        \<and> events (invoke conv app cap ?w a h) = ev @ [Delivered (resolve_cb c a) [ErrRef e]]
        \<and> length (filter is_delivery (events (invoke conv app cap ?w a h))) = 1
        \<and> thrown (invoke conv app cap ?w a h) =
            fst (app (resolve_cb c a) [ErrRef e] (hn[e := (hn ! e)\<lparr>prev := Some (length h0)\<rparr>]))
        \<and> store (invoke conv app cap ?w a h) =
            snd (app (resolve_cb c a) [ErrRef e] (hn[e := (hn ! e)\<lparr>prev := Some (length h0)\<rparr>]))"
    if n: "normalise conv cap v h1 = (Inr e, hn)" for e hn
  proof -
    from normalise_valid [OF valid n] have e: "e < length hn" .
    from failure_delivered [OF cb' raised n e] e show ?thesis
      by (simp add: wp)
  qed
  have t: "thrown (invoke conv app cap ?w a h) = Some x
        \<and> store (invoke conv app cap ?w a h) = hn
        \<and> events (invoke conv app cap ?w a h) = ev"
    if n: "normalise conv cap v h1 = (Inl x, hn)" for x hn
    using failure_escapes [OF raised n] by simp
  have n1: "\<forall>x. v = ErrRef x \<longrightarrow> normalise conv cap v h1 = (Inr x, h1)"
    by (simp add: normalise_Error)
  have n2: "v = Undefined \<longrightarrow>
          normalise conv cap v h1 =
            (Inr (length h1),
             h1 @ [\<lparr>message = [], meta = Undefined, prev = None, captured = cap 69\<rparr>])"
    by (simp add: normalise_Undefined)
  have n3: "\<forall>t h2. \<not> instanceof_Error v \<and> v \<noteq> Undefined \<and> ToString conv v h1 = (Inr t, h2) \<longrightarrow>
          normalise conv cap v h1 =
            (Inr (length h2),
             h2 @ [\<lparr>message = t, meta = Undefined, prev = None, captured = cap 69\<rparr>])"
    by (simp add: normalise_text)
  have n4: "\<forall>x h2. \<not> instanceof_Error v \<and> v \<noteq> Undefined \<and> ToString conv v h1 = (Inl x, h2) \<longrightarrow>
          normalise conv cap v h1 = (Inl x, h2)"
    by (simp add: normalise_throws)
  from d have D: "\<forall>e hn. normalise conv cap v h1 = (Inr e, hn) \<longrightarrow>
          e < length hn
        \<and> events (invoke conv app cap ?w a h) = ev @ [Delivered (resolve_cb c a) [ErrRef e]]
        \<and> length (filter is_delivery (events (invoke conv app cap ?w a h))) = 1
        \<and> thrown (invoke conv app cap ?w a h) =
            fst (app (resolve_cb c a) [ErrRef e] (hn[e := (hn ! e)\<lparr>prev := Some (length h0)\<rparr>]))
        \<and> store (invoke conv app cap ?w a h) =
            snd (app (resolve_cb c a) [ErrRef e] (hn[e := (hn ! e)\<lparr>prev := Some (length h0)\<rparr>]))"
    by blast
  from t have T: "\<forall>x hn. normalise conv cap v h1 = (Inl x, hn) \<longrightarrow>
          thrown (invoke conv app cap ?w a h) = Some x
        \<and> store (invoke conv app cap ?w a h) = hn
        \<and> events (invoke conv app cap ?w a h) = ev"
    by blast
  from p o D T n1 n2 n3 n4 show ?thesis
    by (intro conjI)
qed

lemma try_ex:
  "try_block conv_ex app_ex cap_ex (wrapper_ex\<lparr>w_cb := handler_ex\<rparr>) [Null, Str ''data'']
     [origin_ex] =
     (Some (Str ''boom''), [origin_ex], [RanLogic logic_ex [Null, Str ''data'']])"
  by (simp add: ex_defs run_defs)

text \<open>
  \<^verbatim>\<open>_x(handler, true, logic)(null, 'data')\<close>, where \<open>logic\<close> throws \<^verbatim>\<open>'boom'\<close>: the
  handler gets the error at address 1, whose \<^verbatim>\<open>prev\<close> is the origin at address 0.
\<close>

theorem invoke_failure_delivered_witness:
  "events (invoke conv_ex app_ex cap_ex wrapper_ex [Null, Str ''data''] [origin_ex]) =
     [RanLogic logic_ex [Null, Str ''data''], Delivered handler_ex [ErrRef 1]]
   \<and> thrown (invoke conv_ex app_ex cap_ex wrapper_ex [Null, Str ''data''] [origin_ex]) = None
   \<and> store (invoke conv_ex app_ex cap_ex wrapper_ex [Null, Str ''data''] [origin_ex]) =
       [origin_ex,
        \<lparr>message = ''boom'', meta = Undefined, prev = Some 0, captured = cap_ex 69\<rparr>]"
proof -
  have cb: "truthy (resolve_cb handler_ex [Null, Str ''data''])"
    by (simp add: ex_defs resolve_cb_def)
  have valid: "\<forall>x. Str ''boom'' = ErrRef x \<longrightarrow> x < length [origin_ex]"
    by simp
  have n: "normalise conv_ex cap_ex (Str ''boom'') [origin_ex] =
      (Inr 1, [origin_ex,
        \<lparr>message = ''boom'', meta = Undefined, prev = None, captured = cap_ex 69\<rparr>])"
    by (simp add: normalise_def new_Error_def alloc_Error_def ToString_def)
  have w: "wrapper_ex\<lparr>w_cb := handler_ex\<rparr> = wrapper_ex"
    by (simp add: wrapper_ex_def)
  from invoke_failure_delivered [OF examples_constructed(1) cb try_ex valid] n
  have "events (invoke conv_ex app_ex cap_ex (wrapper_ex\<lparr>w_cb := handler_ex\<rparr>)
          [Null, Str ''data''] [origin_ex]) =
       [RanLogic logic_ex [Null, Str ''data'']]
       @ [Delivered (resolve_cb handler_ex [Null, Str ''data'']) [ErrRef 1]]
     \<and> thrown (invoke conv_ex app_ex cap_ex (wrapper_ex\<lparr>w_cb := handler_ex\<rparr>)
          [Null, Str ''data''] [origin_ex]) =
       fst (app_ex (resolve_cb handler_ex [Null, Str ''data'']) [ErrRef 1]
         ([origin_ex, \<lparr>message = ''boom'', meta = Undefined, prev = None, captured = cap_ex 69\<rparr>]
           [1 := ([origin_ex, \<lparr>message = ''boom'', meta = Undefined, prev = None,
                    captured = cap_ex 69\<rparr>] ! 1)\<lparr>prev := Some (length ([]::heap))\<rparr>]))
     \<and> store (invoke conv_ex app_ex cap_ex (wrapper_ex\<lparr>w_cb := handler_ex\<rparr>)
          [Null, Str ''data''] [origin_ex]) =
       snd (app_ex (resolve_cb handler_ex [Null, Str ''data'']) [ErrRef 1]
         ([origin_ex, \<lparr>message = ''boom'', meta = Undefined, prev = None, captured = cap_ex 69\<rparr>]
           [1 := ([origin_ex, \<lparr>message = ''boom'', meta = Undefined, prev = None,
                    captured = cap_ex 69\<rparr>] ! 1)\<lparr>prev := Some (length ([]::heap))\<rparr>]))"
    by blast
  then show ?thesis
    unfolding w by (simp add: resolve_cb_def handler_ex_def app_ex_def)
qed

text \<open>
  C1 as stated never lets the failure past the boundary and always calls the handler
  once. With a handler that throws the error it is given, the error leaves the
  invocation: the call \<^verbatim>\<open>cb(e)\<close> is inside the catch block, unguarded. And when the
  wrapped logic throws the object \<open>bad_ex\<close>, whose \<^verbatim>\<open>toString\<close> throws the number 1,
  \<^verbatim>\<open>new Error(e)\<close> throws in the catch block: no handler is called and the number 1
  leaves the invocation.
\<close>

theorem handler_rethrows_counterexample:
  "thrown (invoke conv_ex app_ex cap_ex (wrapper_ex\<lparr>w_cb := rethrow_ex\<rparr>) [Null, Str ''data'']
      [origin_ex]) = Some (ErrRef 1)
   \<and> events (invoke conv_ex app_ex cap_ex (wrapper_ex\<lparr>w_cb := rethrow_ex\<rparr>) [Null, Str ''data'']
      [origin_ex]) =
       [RanLogic logic_ex [Null, Str ''data''], Delivered rethrow_ex [ErrRef 1]]
   \<and> message (store (invoke conv_ex app_ex cap_ex (wrapper_ex\<lparr>w_cb := rethrow_ex\<rparr>)
      [Null, Str ''data''] [origin_ex]) ! 1) = ''boom''
   \<and> thrown (invoke conv_ex app_ex cap_ex (wrapper_ex\<lparr>w_func := bad_logic_ex\<rparr>)
      [Null, Str ''data''] [origin_ex]) = Some (Num 1)
   \<and> events (invoke conv_ex app_ex cap_ex (wrapper_ex\<lparr>w_func := bad_logic_ex\<rparr>)
      [Null, Str ''data''] [origin_ex]) = [RanLogic bad_logic_ex [Null, Str ''data'']]"
  by (simp add: ex_defs run_defs)

text \<open>
  C2, as the code has it. The instance has \<open>chk\<close> true and a resolvable handler. With a
  truthy first argument the wrapped logic is not run: every call the invocation makes
  is a delivery. When the argument is an \<^verbatim>\<open>Error\<close>, or its string conversion returns
  the text \<open>t\<close>, the one call is the delivery of an error whose \<^verbatim>\<open>prev\<close> is the
  origin: the argument itself, or a fresh error with the message \<open>t\<close>; the invocation
  ends as the handler's call ends. When the conversion throws \<open>x\<close>, \<open>x\<close> takes the
  failure path in its turn: it is delivered once normalised, or, when its own conversion
  throws \<open>y\<close>, nothing is called and \<open>y\<close> leaves the invocation. With a falsy first
  argument the check raises nothing and the first call is the wrapped logic with all the
  arguments, in the unchanged store; when the logic returns, nothing else happens.
\<close>

theorem checked_invocation:
  assumes chk: "w_chk w = Bool True"
    and cb: "truthy (resolve_cb (w_cb w) a)"
    and valid: "\<forall>x. arg0 a = ErrRef x \<longrightarrow> x < length h"
  shows "(truthy (arg0 a) \<longrightarrow>
           (\<forall>x \<in> set (events (invoke conv app cap w a h)). is_delivery x)
         \<and> (\<forall>t h2. instanceof_Error (arg0 a) \<or> ToString conv (arg0 a) h = (Inr t, h2) \<longrightarrow>
             (\<exists>e hd.
                 events (invoke conv app cap w a h) =
                   [Delivered (resolve_cb (w_cb w) a) [ErrRef e]]
               \<and> thrown (invoke conv app cap w a h) =
                   fst (app (resolve_cb (w_cb w) a) [ErrRef e] hd)
               \<and> store (invoke conv app cap w a h) =
                   snd (app (resolve_cb (w_cb w) a) [ErrRef e] hd)
               \<and> e < length hd \<and> prev (hd ! e) = Some (w_prev w)
               \<and> (instanceof_Error (arg0 a) \<longrightarrow> arg0 a = ErrRef e)
               \<and> (\<not> instanceof_Error (arg0 a) \<longrightarrow>
                     e = length h2 \<and> message (hd ! e) = t)))
         \<and> (\<forall>x h2. \<not> instanceof_Error (arg0 a) \<and> ToString conv (arg0 a) h = (Inl x, h2) \<longrightarrow>
               (\<forall>e hn. normalise conv cap x h2 = (Inr e, hn) \<longrightarrow>
                   events (invoke conv app cap w a h) =
                     [Delivered (resolve_cb (w_cb w) a) [ErrRef e]])
             \<and> (\<forall>y hn. normalise conv cap x h2 = (Inl y, hn) \<longrightarrow>
                   events (invoke conv app cap w a h) = []
                 \<and> thrown (invoke conv app cap w a h) = Some y
                 \<and> store (invoke conv app cap w a h) = hn)))
       \<and> (\<not> truthy (arg0 a) \<longrightarrow>
           (\<exists>rest. events (invoke conv app cap w a h) = RanLogic (w_func w) a # rest)
           \<and> (fst (app (w_func w) a h) = None \<longrightarrow>
                thrown (invoke conv app cap w a h) = None
                \<and> store (invoke conv app cap w a h) = snd (app (w_func w) a h)
                \<and> events (invoke conv app cap w a h) = [RanLogic (w_func w) a]))"
proof -
  have c: "truthy (w_chk w)" using chk by simp
  have A: "\<forall>x \<in> set (events (invoke conv app cap w a h)). is_delivery x"
    if t: "truthy (arg0 a)"
  proof -
    from try_block_check [OF c t, of conv cap h app] obtain v h1
      where r: "try_block conv app cap w a h = (Some v, h1, [])" by blast
    from invoke_raised_events [OF r] show ?thesis by auto
  qed
  have B: "\<exists>e hd.
                 events (invoke conv app cap w a h) =
                   [Delivered (resolve_cb (w_cb w) a) [ErrRef e]]
               \<and> thrown (invoke conv app cap w a h) =
                   fst (app (resolve_cb (w_cb w) a) [ErrRef e] hd)
               \<and> store (invoke conv app cap w a h) =
                   snd (app (resolve_cb (w_cb w) a) [ErrRef e] hd)
               \<and> e < length hd \<and> prev (hd ! e) = Some (w_prev w)
               \<and> (instanceof_Error (arg0 a) \<longrightarrow> arg0 a = ErrRef e)
               \<and> (\<not> instanceof_Error (arg0 a) \<longrightarrow>
                     e = length h2 \<and> message (hd ! e) = t)"
    if t: "truthy (arg0 a)"
      and s: "instanceof_Error (arg0 a) \<or> ToString conv (arg0 a) h = (Inr t, h2)" for t h2
  proof (cases "instanceof_Error (arg0 a)")
    case True
    then obtain x where x: "arg0 a = ErrRef x" by (cases "arg0 a") auto
    with valid have xl: "x < length h" by simp
    have r: "try_block conv app cap w a h = (Some (ErrRef x), h, [])"
      using c xl by (simp add: try_block_def x laeh_e_Error)
    note f = failure_delivered [OF cb r normalise_Error xl]
    show ?thesis
      apply (rule exI [of _ x])
      apply (rule exI [of _ "h[x := (h ! x)\<lparr>prev := Some (w_prev w)\<rparr>]"])
      using f xl x by simp
  next
    case False
    with s have ts: "ToString conv (arg0 a) h = (Inr t, h2)" by simp
    let ?h1 = "h2 @ [\<lparr>message = t, meta = Undefined, prev = None, captured = cap 31\<rparr>]"
    have r: "try_block conv app cap w a h = (Some (ErrRef (length h2)), ?h1, [])"
      using c t by (simp add: try_block_def laeh_e_text [OF t False ts])
    have el: "length h2 < length ?h1" by simp
    note f = failure_delivered [OF cb r normalise_Error el]
    show ?thesis
      apply (rule exI [of _ "length h2"])
      apply (rule exI [of _ "?h1[length h2 := (?h1 ! length h2)\<lparr>prev := Some (w_prev w)\<rparr>]"])
      using f False by simp
  qed
  have E: "(\<forall>e hn. normalise conv cap x h2 = (Inr e, hn) \<longrightarrow>
                   events (invoke conv app cap w a h) =
                     [Delivered (resolve_cb (w_cb w) a) [ErrRef e]])
             \<and> (\<forall>y hn. normalise conv cap x h2 = (Inl y, hn) \<longrightarrow>
                   events (invoke conv app cap w a h) = []
                 \<and> thrown (invoke conv app cap w a h) = Some y
                 \<and> store (invoke conv app cap w a h) = hn)"
    if t: "truthy (arg0 a)" and ne: "\<not> instanceof_Error (arg0 a)"
      and ts: "ToString conv (arg0 a) h = (Inl x, h2)" for x h2
  proof -
    have r: "try_block conv app cap w a h = (Some x, h2, [])"
      using c by (simp add: try_block_def laeh_e_conversion_throws [OF t ne ts])
    show ?thesis
      using failure_events [OF cb r] failure_escapes [OF r] by simp
  qed
  have tb: "try_block conv app cap w a h =
     (fst (app (w_func w) a h), snd (app (w_func w) a h), [RanLogic (w_func w) a])"
    if t: "\<not> truthy (arg0 a)"
    using t by (simp add: try_block_check_passes)
  have C: "\<exists>rest. events (invoke conv app cap w a h) = RanLogic (w_func w) a # rest"
    if t: "\<not> truthy (arg0 a)"
  proof (cases "fst (app (w_func w) a h)")
    case None
    with tb [OF t] show ?thesis by (simp add: invoke_returned)
  next
    case (Some v)
    with tb [OF t] have "try_block conv app cap w a h =
        (Some v, snd (app (w_func w) a h), [RanLogic (w_func w) a])"
      by simp
    from invoke_raised_events [OF this] show ?thesis by auto
  qed
  have D: "thrown (invoke conv app cap w a h) = None
                \<and> store (invoke conv app cap w a h) = snd (app (w_func w) a h)
                \<and> events (invoke conv app cap w a h) = [RanLogic (w_func w) a]"
    if t: "\<not> truthy (arg0 a)" and n: "fst (app (w_func w) a h) = None"
  proof -
    from tb [OF t] n have "try_block conv app cap w a h =
       (None, snd (app (w_func w) a h), [RanLogic (w_func w) a])"
      by simp
    then show ?thesis by (simp add: invoke_returned)
  qed
  from A B C D E show ?thesis by blast
qed

text \<open>
  \<^verbatim>\<open>wrapper('EIO', 'data')\<close> only delivers an error with message \<^verbatim>\<open>EIO\<close>;
  \<^verbatim>\<open>wrapper(null, 'data')\<close> runs the logic.
\<close>

theorem checked_invocation_witness:
  "events (invoke conv_ex app_ex cap_ex wrapper_ex [Str ''EIO'', Str ''data''] [origin_ex]) =
     [Delivered handler_ex [ErrRef 1]]
   \<and> message (store (invoke conv_ex app_ex cap_ex wrapper_ex [Str ''EIO'', Str ''data'']
        [origin_ex]) ! 1) = ''EIO''
   \<and> hd (events (invoke conv_ex app_ex cap_ex wrapper_ex [Null, Str ''data''] [origin_ex])) =
       RanLogic logic_ex [Null, Str ''data'']"
proof -
  have chk: "w_chk wrapper_ex = Bool True"
    by (simp add: wrapper_ex_def)
  have cb: "truthy (resolve_cb (w_cb wrapper_ex) a)" for a
    by (simp add: ex_defs resolve_cb_def)
  have v1: "\<forall>x. arg0 [Str ''EIO'', Str ''data''] = ErrRef x \<longrightarrow> x < length [origin_ex]"
    by (simp add: arg0_def)
  have v2: "\<forall>x. arg0 [Null, Str ''data''] = ErrRef x \<longrightarrow> x < length [origin_ex]"
    by (simp add: arg0_def)
  have ts: "ToString conv_ex (arg0 [Str ''EIO'', Str ''data'']) [origin_ex] =
      (Inr ''EIO'', [origin_ex])"
    by (simp add: ToString_def arg0_def)
  from checked_invocation [OF chk cb v1, of conv_ex app_ex cap_ex] ts
  obtain e hs where
    "events (invoke conv_ex app_ex cap_ex wrapper_ex [Str ''EIO'', Str ''data''] [origin_ex]) =
       [Delivered (resolve_cb (w_cb wrapper_ex) [Str ''EIO'', Str ''data'']) [ErrRef e]]"
    "store (invoke conv_ex app_ex cap_ex wrapper_ex [Str ''EIO'', Str ''data''] [origin_ex]) =
       snd (app_ex (resolve_cb (w_cb wrapper_ex) [Str ''EIO'', Str ''data'']) [ErrRef e] hs)"
    "e = length [origin_ex]" "message (hs ! e) = ''EIO''"
    by (auto simp: arg0_def)
  then have a: "events (invoke conv_ex app_ex cap_ex wrapper_ex [Str ''EIO'', Str ''data''] [origin_ex]) =
     [Delivered handler_ex [ErrRef 1]]
     \<and> message (store (invoke conv_ex app_ex cap_ex wrapper_ex [Str ''EIO'', Str ''data'']
          [origin_ex]) ! 1) = ''EIO''"
    by (simp add: resolve_cb_def wrapper_ex_def handler_ex_def app_ex_def arg0_def)
  from checked_invocation [OF chk cb v2, of conv_ex app_ex cap_ex]
  have "hd (events (invoke conv_ex app_ex cap_ex wrapper_ex [Null, Str ''data''] [origin_ex])) =
       RanLogic logic_ex [Null, Str ''data'']"
    by (auto simp: arg0_def wrapper_ex_def)
  with a show ?thesis by simp
qed

text \<open>
  C2 as stated delivers an error for every non-falsy first argument. The \<^verbatim>\<open>toString\<close>
  of \<open>worse_ex\<close> throws \<open>bad_ex\<close>, whose \<^verbatim>\<open>toString\<close> throws the number 1: in
  \<^verbatim>\<open>wrapper(worse, 'data')\<close> the check throws \<open>bad_ex\<close>, \<^verbatim>\<open>new Error(e)\<close> in the
  catch block throws 1, and the invocation ends with 1 thrown, no error allocated and
  nothing called.
\<close>

theorem checked_conversion_counterexample:
  "w_chk wrapper_ex = Bool True
   \<and> truthy (resolve_cb (w_cb wrapper_ex) [worse_ex, Str ''data''])
   \<and> truthy (arg0 [worse_ex, Str ''data''])
   \<and> events (invoke conv_ex app_ex cap_ex wrapper_ex [worse_ex, Str ''data''] [origin_ex]) = []
   \<and> thrown (invoke conv_ex app_ex cap_ex wrapper_ex [worse_ex, Str ''data''] [origin_ex]) =
       Some (Num 1)
   \<and> store (invoke conv_ex app_ex cap_ex wrapper_ex [worse_ex, Str ''data''] [origin_ex]) =
       [origin_ex]"
  by (simp add: ex_defs run_defs)





text \<open>
The closure's \<open>cb\<close> across invocations.
\<close>

lemma resolve_cb_adopts:
  "\<not> truthy c \<Longrightarrow> a \<noteq> [] \<Longrightarrow> is_function (last a) \<Longrightarrow> resolve_cb c a = last a"
  by (simp add: resolve_cb_def)

lemma resolve_cb_keeps: "truthy c \<Longrightarrow> resolve_cb c b = c"
  by (simp add: resolve_cb_def)

lemma is_function_truthy: "is_function v \<Longrightarrow> truthy v"
  by (cases v) auto

lemma closure_invoke:
  "closure (invoke conv app cap w a h) = w\<lparr>w_cb := resolve_cb (w_cb w) a\<rparr>"
  by (simp add: invoke_def Let_def split: prod.splits option.splits)

lemma closure_invoke_keeps: "truthy (w_cb w) \<Longrightarrow> closure (invoke conv app cap w a h) = w"
  by (simp add: closure_invoke resolve_cb_keeps)

lemma invoke_all_closure:
  "truthy (w_cb w) \<Longrightarrow> r \<in> set (invoke_all conv app cap w bs h) \<Longrightarrow> closure r = w"
proof (induction bs arbitrary: h)
  case Nil
  then show ?case by simp
next
  case (Cons b bs)
  then show ?case
    by (auto simp: Let_def closure_invoke_keeps)
qed

text \<open>
  C10, as the code has it. An instance constructed without a completion handler, invoked
  with arguments whose last one is a function: the closure the invocation leaves holds
  that function as \<open>cb\<close>. Every later invocation of the instance, whatever its
  arguments \<open>bs\<close> and the store it starts from, leaves the closure as it is, and every
  delivery a later invocation makes goes to the stored function, also when the last
  argument of that invocation is another function. A later invocation whose \<^verbatim>\<open>try\<close>
  block raises delivers the error to the stored function when the normalisation of the
  failure completes; when the string conversion throws, it delivers nothing.
\<close>

theorem adopted_handler_is_kept:
  assumes "\<not> truthy (w_cb w)" and "a \<noteq> []" and "is_function (last a)"
  shows "closure (invoke conv app cap w a h) = w\<lparr>w_cb := last a\<rparr>
     \<and> (\<forall>r \<in> set (invoke_all conv app cap (closure (invoke conv app cap w a h)) bs h2).
           closure r = w\<lparr>w_cb := last a\<rparr>)
     \<and> (\<forall>b h3 x. x \<in> set (events (invoke conv app cap (w\<lparr>w_cb := last a\<rparr>) b h3))
           \<and> is_delivery x \<longrightarrow> (\<exists>e. x = Delivered (last a) [ErrRef e]))
     \<and> (\<forall>b h3 v h4 ev.
           try_block conv app cap (w\<lparr>w_cb := last a\<rparr>) b h3 = (Some v, h4, ev) \<longrightarrow>
             (\<forall>e hn. normalise conv cap v h4 = (Inr e, hn) \<longrightarrow>
                events (invoke conv app cap (w\<lparr>w_cb := last a\<rparr>) b h3) =
                  ev @ [Delivered (last a) [ErrRef e]])
           \<and> (\<forall>y hn. normalise conv cap v h4 = (Inl y, hn) \<longrightarrow>
                events (invoke conv app cap (w\<lparr>w_cb := last a\<rparr>) b h3) = ev
              \<and> thrown (invoke conv app cap (w\<lparr>w_cb := last a\<rparr>) b h3) = Some y))"
proof -
  let ?w = "w\<lparr>w_cb := last a\<rparr>"
  have r: "resolve_cb (w_cb w) a = last a"
    using assms by (rule resolve_cb_adopts)
  have c: "closure (invoke conv app cap w a h) = ?w"
    by (simp add: closure_invoke r)
  have t: "truthy (w_cb ?w)"
    using assms(3) by (simp add: is_function_truthy)
  have rk: "resolve_cb (last a) b = last a" for b
    using assms(3) by (simp add: resolve_cb_keeps is_function_truthy)
  have k: "\<forall>r \<in> set (invoke_all conv app cap (closure (invoke conv app cap w a h)) bs h2).
           closure r = ?w"
    unfolding c using invoke_all_closure [OF t] by blast
  have q: "\<exists>e. x = Delivered (last a) [ErrRef e]"
    if "x \<in> set (events (invoke conv app cap ?w b h3))" and "is_delivery x" for b h3 x
    using invoke_deliveries [OF that] by (simp add: rk)
  have d: "events (invoke conv app cap ?w b h3) = ev @ [Delivered (last a) [ErrRef e]]"
    if "try_block conv app cap ?w b h3 = (Some v, h4, ev)"
      and "normalise conv cap v h4 = (Inr e, hn)" for b h3 v h4 ev e hn
  proof -
    have "truthy (resolve_cb (w_cb ?w) b)"
      using t by (simp add: resolve_cb_keeps)
    from failure_events [OF this that] show ?thesis
      by (simp add: rk)
  qed
  have n: "events (invoke conv app cap ?w b h3) = ev
              \<and> thrown (invoke conv app cap ?w b h3) = Some y"
    if "try_block conv app cap ?w b h3 = (Some v, h4, ev)"
      and "normalise conv cap v h4 = (Inl y, hn)" for b h3 v h4 ev y hn
    using failure_escapes [OF that] by simp
  have dn: "\<forall>b h3 v h4 ev.
           try_block conv app cap ?w b h3 = (Some v, h4, ev) \<longrightarrow>
             (\<forall>e hn. normalise conv cap v h4 = (Inr e, hn) \<longrightarrow>
                events (invoke conv app cap ?w b h3) =
                  ev @ [Delivered (last a) [ErrRef e]])
           \<and> (\<forall>y hn. normalise conv cap v h4 = (Inl y, hn) \<longrightarrow>
                events (invoke conv app cap ?w b h3) = ev
              \<and> thrown (invoke conv app cap ?w b h3) = Some y)"
    using d n by blast
  have qa: "\<forall>b h3 x. x \<in> set (events (invoke conv app cap ?w b h3))
           \<and> is_delivery x \<longrightarrow> (\<exists>e. x = Delivered (last a) [ErrRef e])"
    using q by blast
  from c k qa dn show ?thesis by (intro conjI)
qed

text \<open>
  The first invocation adopts \<open>handler_ex\<close>; a later one, whose last argument is
  \<open>other_handler_ex\<close>, still delivers to \<open>handler_ex\<close>.
\<close>

theorem adopted_handler_is_kept_witness:
  "closure (invoke conv_ex app_ex cap_ex lazy_ex [Null, handler_ex] [origin_ex]) =
     lazy_ex\<lparr>w_cb := handler_ex\<rparr>
   \<and> events (invoke conv_ex app_ex cap_ex (lazy_ex\<lparr>w_cb := handler_ex\<rparr>)
        [Null, other_handler_ex] [origin_ex]) =
       [RanLogic logic_ex [Null, other_handler_ex], Delivered handler_ex [ErrRef 1]]"
proof -
  have a: "\<not> truthy (w_cb lazy_ex)" "[Null, handler_ex] \<noteq> []" "is_function (last [Null, handler_ex])"
    by (simp_all add: lazy_ex_def handler_ex_def)
  have t: "try_block conv_ex app_ex cap_ex (lazy_ex\<lparr>w_cb := last [Null, handler_ex]\<rparr>)
      [Null, other_handler_ex] [origin_ex] =
      (Some (Str ''boom''), [origin_ex], [RanLogic logic_ex [Null, other_handler_ex]])"
    by (simp add: ex_defs run_defs)
  have n: "normalise conv_ex cap_ex (Str ''boom'') [origin_ex] =
      (Inr 1, [origin_ex, \<lparr>message = ''boom'', meta = Undefined, prev = None,
                            captured = cap_ex 69\<rparr>])"
    by (simp add: run_defs)
  note th = adopted_handler_is_kept [OF a, of conv_ex app_ex cap_ex "[origin_ex]" "[]" "[]"]
  from th have c: "closure (invoke conv_ex app_ex cap_ex lazy_ex [Null, handler_ex] [origin_ex]) =
     lazy_ex\<lparr>w_cb := handler_ex\<rparr>"
    by simp
  from th t n have "events (invoke conv_ex app_ex cap_ex (lazy_ex\<lparr>w_cb := last [Null, handler_ex]\<rparr>)
        [Null, other_handler_ex] [origin_ex]) =
       [RanLogic logic_ex [Null, other_handler_ex]] @ [Delivered (last [Null, handler_ex]) [ErrRef 1]]"
    by blast
  with c show ?thesis by simp
qed

text \<open>
  C10 as stated has every later invocation deliver its failure to the stored handler.
  After \<open>handler_ex\<close> is adopted, an invocation whose logic throws the object \<open>bad_ex\<close>
  delivers to no handler: \<^verbatim>\<open>new Error(e)\<close> throws the number 1 in the catch block.
\<close>

theorem adopted_handler_counterexample:
  "closure (invoke conv_ex app_ex cap_ex (lazy_ex\<lparr>w_func := bad_logic_ex\<rparr>)
      [Null, handler_ex] [origin_ex]) = lazy_ex\<lparr>w_func := bad_logic_ex, w_cb := handler_ex\<rparr>
   \<and> events (invoke conv_ex app_ex cap_ex (lazy_ex\<lparr>w_func := bad_logic_ex, w_cb := handler_ex\<rparr>)
        [Null, other_handler_ex] [origin_ex]) =
       [RanLogic bad_logic_ex [Null, other_handler_ex]]
   \<and> thrown (invoke conv_ex app_ex cap_ex (lazy_ex\<lparr>w_func := bad_logic_ex, w_cb := handler_ex\<rparr>)
        [Null, other_handler_ex] [origin_ex]) = Some (Num 1)"
  by (simp add: ex_defs run_defs)

subsection \<open>The link to the origin across boundaries\<close>

text \<open>
One crossing, then several, with handlers that leave the store alone.
\<close>

lemma crossing_raised:
  assumes "truthy (w_chk w)" and "e < length h"
  shows "try_block conv app cap w [ErrRef e] h = (Some (ErrRef e), h, [])"
  using assms by (simp add: try_block_def arg0_def laeh_e_Error)

lemma crossing_delivery_store:
  assumes "truthy (w_chk w)" and "truthy (w_cb w)" and "e < length h"
  shows "store (invoke conv app cap w [ErrRef e] h) =
     snd (app (w_cb w) [ErrRef e] (h[e := (h ! e)\<lparr>prev := Some (w_prev w)\<rparr>]))"
proof -
  note raised = crossing_raised [OF assms(1) assms(3), of conv app cap]
  have r: "resolve_cb (w_cb w) [ErrRef e] = w_cb w"
    using assms(2) by (rule resolve_cb_keeps)
  have c: "truthy (resolve_cb (w_cb w) [ErrRef e])" using assms(2) by (simp add: r)
  from failure_delivered(4) [OF c raised normalise_Error assms(3)]
  show ?thesis by (simp add: r)
qed

lemma crossing_store:
  assumes "truthy (w_chk w)" and "truthy (w_cb w)" and "e < length h"
    and "\<forall>args hh. app (w_cb w) args hh = (None, hh)"
  shows "store (invoke conv app cap w [ErrRef e] h) = h[e := (h ! e)\<lparr>prev := Some (w_prev w)\<rparr>]"
  using assms(4) by (simp add: crossing_delivery_store [OF assms(1,2,3)])

lemma cross_store:
  assumes "ws \<noteq> []" and "e < length h"
    and "\<forall>w \<in> set ws. truthy (w_chk w) \<and> truthy (w_cb w)
           \<and> (\<forall>args hh. app (w_cb w) args hh = (None, hh))"
  shows "cross conv app cap ws e h = h[e := (h ! e)\<lparr>prev := Some (w_prev (last ws))\<rparr>]"
  using assms
proof (induction ws arbitrary: h)
  case Nil
  then show ?case by simp
next
  case (Cons w ws)
  let ?h1 = "h[e := (h ! e)\<lparr>prev := Some (w_prev w)\<rparr>]"
  have s: "store (invoke conv app cap w [ErrRef e] h) = ?h1"
    using Cons.prems by (intro crossing_store) auto
  show ?case
  proof (cases "ws = []")
    case True
    then show ?thesis by (simp add: s)
  next
    case False
    have "cross conv app cap ws e ?h1 = ?h1[e := (?h1 ! e)\<lparr>prev := Some (w_prev (last ws))\<rparr>]"
      using Cons.prems False by (intro Cons.IH) auto
    then show ?thesis
      using False Cons.prems(2) by (simp add: s)
  qed
qed

lemmas chain_ex_defs = chain_store_ex_def boundary_ex_def inner_ex_def outer_ex_def
  app_nested_ex_def

text \<open>
  C9, as the code has it. A crossing writes the error's \<^verbatim>\<open>prev\<close> before the handler is
  called, whatever it held, and the wrapper does nothing to the store after the handler:
  the invocation leaves the store the handler left. So an error that crosses several
  boundaries has its \<^verbatim>\<open>prev\<close> written at each one: after a non-empty sequence of
  crossings, with handlers that leave the store alone, the store is the first one with
  the error's \<^verbatim>\<open>prev\<close> set to the origin of the last boundary crossed.
\<close>

theorem link_follows_last_boundary:
  "(truthy (w_chk w) \<and> truthy (w_cb w) \<and> e < length h \<longrightarrow>
      store (invoke conv app cap w [ErrRef e] h) =
        snd (app (w_cb w) [ErrRef e] (h[e := (h ! e)\<lparr>prev := Some (w_prev w)\<rparr>])))
   \<and> (ws \<noteq> [] \<and> e < length h
       \<and> (\<forall>w \<in> set ws. truthy (w_chk w) \<and> truthy (w_cb w)
             \<and> (\<forall>args hh. app (w_cb w) args hh = (None, hh))) \<longrightarrow>
      cross conv app cap ws e h = h[e := (h ! e)\<lparr>prev := Some (w_prev (last ws))\<rparr>])"
  using crossing_delivery_store cross_store by blast

text \<open>
The error at address 0 crosses the boundaries with origins 1 and 2.
\<close>

theorem link_follows_last_boundary_witness:
  "cross conv_ex app_ex cap_ex [boundary_ex 1, boundary_ex 2] 0 chain_store_ex =
     chain_store_ex[0 := (error_ex ''boom'' [frame_at ''/app/ex6.js'' 9])\<lparr>prev := Some 2\<rparr>]
   \<and> store (invoke conv_ex app_ex cap_ex (boundary_ex 1) [ErrRef 0] chain_store_ex) =
     chain_store_ex[0 := (error_ex ''boom'' [frame_at ''/app/ex6.js'' 9])\<lparr>prev := Some 1\<rparr>]"
proof -
  have h: "[boundary_ex 1, boundary_ex 2] \<noteq> [] \<and> 0 < length chain_store_ex
       \<and> (\<forall>w \<in> set [boundary_ex 1, boundary_ex 2]. truthy (w_chk w) \<and> truthy (w_cb w)
             \<and> (\<forall>args hh. app_ex (w_cb w) args hh = (None, hh)))"
    by (simp add: chain_ex_defs handler_ex_def app_ex_def)
  have g: "truthy (w_chk (boundary_ex 1)) \<and> truthy (w_cb (boundary_ex 1))
      \<and> 0 < length chain_store_ex"
    by (simp add: chain_ex_defs handler_ex_def)
  note th = link_follows_last_boundary [of "boundary_ex 1" 0 chain_store_ex conv_ex app_ex cap_ex
      "[boundary_ex 1, boundary_ex 2]"]
  from th h have "cross conv_ex app_ex cap_ex [boundary_ex 1, boundary_ex 2] 0 chain_store_ex =
      chain_store_ex[0 := (chain_store_ex ! 0)\<lparr>prev := Some (w_prev (last [boundary_ex 1, boundary_ex 2]))\<rparr>]"
    by blast
  moreover from th g have "store (invoke conv_ex app_ex cap_ex (boundary_ex 1) [ErrRef 0] chain_store_ex) =
        snd (app_ex (w_cb (boundary_ex 1)) [ErrRef 0]
           (chain_store_ex[0 := (chain_store_ex ! 0)\<lparr>prev := Some (w_prev (boundary_ex 1))\<rparr>]))"
    by blast
  ultimately show ?thesis
    by (simp add: chain_ex_defs handler_ex_def app_ex_def)
qed

text \<open>
  C9 as stated says the link attached at the first delivery is never overwritten. The
  instance \<open>inner_ex\<close> delivers the error at address 0 with \<^verbatim>\<open>prev\<close> set to its origin,
  address 1. When its handler is the instance \<open>boundary_ex 2\<close>, that instance checks the
  error, catches it and sets \<^verbatim>\<open>prev\<close> to its own origin, address 2. The same happens
  when the two boundaries are crossed one after the other.
\<close>

theorem link_overwritten_counterexample:
  "prev (store (invoke conv_ex app_ex cap_ex inner_ex [ErrRef 0] chain_store_ex) ! 0) = Some 1
   \<and> events (invoke conv_ex app_nested_ex cap_ex inner_ex [ErrRef 0] chain_store_ex) =
       [Delivered outer_ex [ErrRef 0]]
   \<and> prev (store (invoke conv_ex app_nested_ex cap_ex inner_ex [ErrRef 0] chain_store_ex) ! 0) = Some 2
   \<and> prev (cross conv_ex app_ex cap_ex [boundary_ex 1] 0 chain_store_ex ! 0) = Some 1
   \<and> prev (cross conv_ex app_ex cap_ex [boundary_ex 1, boundary_ex 2] 0 chain_store_ex ! 0) = Some 2"
  by code_simp

subsection \<open>The frame entries\<close>

text \<open>
The first loop only looks at the frames it does not skip.
\<close>

lemma loop_survivors:
  "foldl (frame_step hid cwd) st s =
   foldl (\<lambda>st x. push_line st (fst x) (snd x)) st (survivors hid cwd s)"
  by (induction s arbitrary: st) (simp_all add: survivors_def frame_step_def Let_def)

text \<open>
A run of frames of the file of the last entry extends that entry.
\<close>

lemma loop_absorb:
  "stack \<noteq> [] \<Longrightarrow> \<forall>x \<in> set ys. fst x = n \<Longrightarrow>
   foldl (\<lambda>st x. push_line st (fst x) (snd x)) (stack, Some n) ys =
     (butlast stack @ [last stack @ concat (map (\<lambda>x. '' < '' @ snd x) ys)], Some n)"
proof (induction ys arbitrary: stack)
  case Nil
  then show ?case by simp
next
  case (Cons y ys)
  have "push_line (stack, Some n) (fst y) (snd y) =
      (butlast stack @ [last stack @ '' < '' @ snd y], Some n)"
    using Cons.prems by (simp add: push_line_def)
  then show ?case
    using Cons.IH [of "butlast stack @ [last stack @ '' < '' @ snd y]"] Cons.prems
    by simp
qed

lemma join_Cons: "join sep (x # xs) = x @ concat (map (\<lambda>y. sep @ y) xs)"
  by (induction xs arbitrary: x) simp_all

text \<open>
The loop and the maximal runs: one open entry for each run.
\<close>

lemma loop_runs:
  "xs = [] \<or> pv \<noteq> Some (fst (hd xs)) \<Longrightarrow>
   fst (foldl (\<lambda>st x. push_line st (fst x) (snd x)) (stack, pv) xs) =
     stack @ map (\<lambda>g. fst g @ ''('' @ join '' < '' (snd g)) (coalesce_runs xs)"
proof (induction xs arbitrary: stack pv rule: coalesce_runs.induct)
  case 1
  then show ?case by simp
next
  case (2 n l xs)
  let ?P = "\<lambda>x. fst x = n"
  let ?tw = "takeWhile ?P xs" and ?dw = "dropWhile ?P xs"
  let ?step = "\<lambda>st x. push_line st (fst x) (snd x)"
  let ?entry = "n @ ''('' @ l @ concat (map (\<lambda>x. '' < '' @ snd x) ?tw)"
  have first: "push_line (stack, pv) n l = (stack @ [n @ ''('' @ l], Some n)"
    using "2.prems" by (simp add: push_line_def)
  have run: "foldl ?step (stack @ [n @ ''('' @ l], Some n) ?tw = (stack @ [?entry], Some n)"
  proof -
    have "\<forall>x \<in> set ?tw. fst x = n"
      by (auto dest: set_takeWhileD)
    from loop_absorb [OF _ this, of "stack @ [n @ ''('' @ l]"] show ?thesis
      by simp
  qed
  have split: "xs = ?tw @ ?dw" by simp
  have "foldl ?step (stack, pv) ((n, l) # xs) = foldl ?step (stack @ [?entry], Some n) ?dw"
  proof -
    have "foldl ?step (stack, pv) ((n, l) # xs) =
        foldl ?step (stack @ [n @ ''('' @ l], Some n) (?tw @ ?dw)"
      using first by simp
    also have "\<dots> = foldl ?step (stack @ [?entry], Some n) ?dw"
      unfolding foldl_append run ..
    finally show ?thesis .
  qed
  moreover have "?dw = [] \<or> Some n \<noteq> Some (fst (hd ?dw))"
  proof (cases "?dw = []")
    case True
    then show ?thesis by simp
  next
    case False
    from hd_dropWhile [OF this] show ?thesis by simp
  qed
  then have "fst (foldl ?step (stack @ [?entry], Some n) ?dw) =
      (stack @ [?entry]) @ map (\<lambda>g. fst g @ ''('' @ join '' < '' (snd g)) (coalesce_runs ?dw)"
    by (rule "2.IH")
  moreover have "?entry = n @ ''('' @ join '' < '' (l # map snd ?tw)"
    by (simp add: join_Cons comp_def)
  ultimately show ?case
    by (simp del: foldl_Cons)
qed

lemma frame_entries_runs:
  "frame_entries hid cwd s = map (entry_text '' < '') (coalesce_runs (survivors hid cwd s))"
  using loop_runs [of "survivors hid cwd s" None "[]"]
  by (simp add: frame_entries_def loop_survivors entry_text_def)

text \<open>
  \<open>coalesce_runs\<close> does split a list into its maximal runs: the runs, put end to end,
  are the list, no run is empty, and two neighbouring runs differ in their location.
\<close>

lemma coalesce_runs_concat:
  "concat (map (\<lambda>g. map (Pair (fst g)) (snd g)) (coalesce_runs xs)) = xs"
proof (induction xs rule: coalesce_runs.induct)
  case 1
  then show ?case by simp
next
  case (2 n l xs)
  have "map (Pair n) (map snd (takeWhile (\<lambda>x. fst x = n) xs)) = takeWhile (\<lambda>x. fst x = n) xs"
    by (induction xs) auto
  with 2 show ?case by simp
qed

lemma coalesce_runs_nonempty: "g \<in> set (coalesce_runs xs) \<Longrightarrow> snd g \<noteq> []"
  by (induction xs arbitrary: g rule: coalesce_runs.induct) auto

lemma coalesce_runs_hd:
  "xs \<noteq> [] \<Longrightarrow> coalesce_runs xs \<noteq> [] \<and> fst (hd (coalesce_runs xs)) = fst (hd xs)"
  by (cases xs) auto

lemma coalesce_runs_distinct_adj: "distinct_adj (map fst (coalesce_runs xs))"
proof (induction xs rule: coalesce_runs.induct)
  case 1
  then show ?case by simp
next
  case (2 n l xs)
  let ?dw = "dropWhile (\<lambda>x. fst x = n) xs"
  show ?case
  proof (cases "?dw = []")
    case True
    then show ?thesis by (simp del: dropWhile_eq_Nil_conv)
  next
    case False
    from hd_dropWhile [OF False] have "fst (hd ?dw) \<noteq> n" by simp
    with coalesce_runs_hd [OF False] have "coalesce_runs ?dw \<noteq> []"
      and "fst (hd (coalesce_runs ?dw)) \<noteq> n" by simp_all
    with 2 show ?thesis
      by (cases "coalesce_runs ?dw") (simp_all add: distinct_adj_Cons)
  qed
qed

lemma coalesce_runs_fst: "g \<in> set (coalesce_runs xs) \<Longrightarrow> fst g \<in> fst ` set xs"
proof (induction xs arbitrary: g rule: coalesce_runs.induct)
  case 1
  then show ?case by simp
next
  case (2 n l xs)
  let ?dw = "dropWhile (\<lambda>x. fst x = n) xs"
  from "2.prems" have "fst g = n \<or> g \<in> set (coalesce_runs ?dw)"
    by auto
  then show ?case
  proof
    assume "fst g = n"
    then show ?thesis by simp
  next
    assume "g \<in> set (coalesce_runs ?dw)"
    then have "fst g \<in> fst ` set ?dw" by (rule "2.IH")
    then obtain y where "y \<in> set ?dw" and "fst g = fst y" by auto
    then show ?thesis
      using set_dropWhileD [of y "\<lambda>x. fst x = n" xs] by auto
  qed
qed

subsection \<open>The rendered text\<close>

text \<open>
  The text the installed function returns: the message part, the metadata part, the
  frame entries, and the part for \<^verbatim>\<open>prev\<close>.
\<close>

lemma prepareStackTrace_no_meta:
  "\<not> truthy (meta e) \<Longrightarrow>
   prepareStackTrace cfg cwd js e s =
     Inr ((if message e = [] then [] else message e @ sep_or (frameSeparator cfg) '' < '')
          @ join (sep_or (frameSeparator cfg) '' < '') (frame_entries (hiding cfg) cwd s)
          @ (case prev e of None \<Rightarrow> []
             | Some p \<Rightarrow> sep_or (fiberSeparator cfg) '' << '' @ stack_property js p))"
  by (simp add: prepareStackTrace_def Let_def split: option.splits)

lemma prepareStackTrace_meta:
  "truthy (meta e) \<Longrightarrow>
   (if typeof_object (meta e) then JSON_stringify js (meta e) (prettyMeta cfg)
    else text_of js (meta e)) = Inr t \<Longrightarrow>
   prepareStackTrace cfg cwd js e s =
     Inr ((if message e = [] then [] else message e @ sep_or (frameSeparator cfg) '' < '')
          @ t @ '' ''
          @ join (sep_or (frameSeparator cfg) '' < '') (frame_entries (hiding cfg) cwd s)
          @ (case prev e of None \<Rightarrow> []
             | Some p \<Rightarrow> sep_or (fiberSeparator cfg) '' << '' @ stack_property js p))"
  by (simp add: prepareStackTrace_def Let_def split: option.splits)

lemma prepareStackTrace_throws:
  "truthy (meta e) \<Longrightarrow>
   (if typeof_object (meta e) then JSON_stringify js (meta e) (prettyMeta cfg)
    else text_of js (meta e)) = Inl x \<Longrightarrow>
   prepareStackTrace cfg cwd js e s = Inl x"
  by (simp add: prepareStackTrace_def Let_def)

lemma prepareStackTrace_prev:
  "prev e = Some p \<Longrightarrow> prepareStackTrace cfg cwd js (e\<lparr>prev := None\<rparr>) s = Inr t \<Longrightarrow>
   prepareStackTrace cfg cwd js e s =
     Inr (t @ sep_or (fiberSeparator cfg) '' << '' @ stack_property js p)"
  by (auto simp: prepareStackTrace_def Let_def split: sum.splits if_splits)

lemma prepareStackTrace_link:
  "prepareStackTrace cfg cwd js (e\<lparr>prev := Some p\<rparr>) s =
     (case prepareStackTrace cfg cwd js (e\<lparr>prev := None\<rparr>) s of
        Inl x \<Rightarrow> Inl x
      | Inr t \<Rightarrow> Inr (t @ sep_or (fiberSeparator cfg) '' << '' @ stack_property js p))"
  by (auto simp: prepareStackTrace_def Let_def split: sum.splits if_splits)

text \<open>
  C5, as the code has it. The frame entries are the maximal runs of consecutive surviving
  frames with the same shortened file location, one entry for each run, in order: the
  location, then in parentheses the line texts of the run. Within an entry the line
  texts are joined by the fixed text \<^verbatim>\<open>' < '\<close>, whatever the configured frame
  separator: that separator only joins the entries, as the rendering of an error with no
  message and no metadata shows.
\<close>

theorem coalescing:
  "frame_entries (hiding cfg) cwd s =
     map (entry_text '' < '') (coalesce_runs (survivors (hiding cfg) cwd s))
   \<and> prepareStackTrace cfg cwd js (error_ex [] s) s =
       Inr (join (sep_or (frameSeparator cfg) '' < '')
         (map (entry_text '' < '') (coalesce_runs (survivors (hiding cfg) cwd s))))
   \<and> concat (map (\<lambda>g. map (Pair (fst g)) (snd g)) (coalesce_runs (survivors (hiding cfg) cwd s)))
       = survivors (hiding cfg) cwd s
   \<and> distinct_adj (map fst (coalesce_runs (survivors (hiding cfg) cwd s)))
   \<and> (\<forall>g \<in> set (coalesce_runs (survivors (hiding cfg) cwd s)). snd g \<noteq> [])"
proof -
  have "prepareStackTrace cfg cwd js (error_ex [] s) s =
       Inr (join (sep_or (frameSeparator cfg) '' < '') (frame_entries (hiding cfg) cwd s))"
    by (simp add: prepareStackTrace_no_meta error_ex_def)
  then show ?thesis
    by (simp add: frame_entries_runs coalesce_runs_concat coalesce_runs_distinct_adj
        coalesce_runs_nonempty)
qed

text \<open>
The two frames of /app/ex6.js, lines 7 and 13, make one entry.
\<close>

theorem coalescing_witness:
  "frame_entries True ''/app'' stack_ex = [''./ex6.js'' @ ''('' @ ''7'' @ '' < '' @ ''13'' @ '')'']
   \<and> coalesce_runs (survivors True ''/app'' stack_ex) = [(''./ex6.js'', [''7'', ''13''])]"
proof -
  have r: "coalesce_runs (survivors True ''/app'' stack_ex) = [(''./ex6.js'', [''7'', ''13''])]"
    by code_simp
  from coalescing [of "leanStacks True Undefined None None" "''/app''" stack_ex]
  have "frame_entries True ''/app'' stack_ex =
     map (entry_text '' < '') (coalesce_runs (survivors True ''/app'' stack_ex))"
    by (simp add: leanStacks_def)
  with r show ?thesis by (simp add: entry_text_def)
qed

text \<open>
  C5 as stated joins the line indicators of an entry by the configured frame separator.
  With the frame separator configured as a line feed, as in
  \<^verbatim>\<open>leanStacks(true, null, '\n')\<close>, the entry is still \<^verbatim>\<open>./ex6.js(7 < 13)\<close>.
\<close>

theorem coalescing_separator_counterexample:
  "prepareStackTrace (leanStacks True Undefined (Some [CHR 0x0A]) None) ''/app'' engine_ex
      (error_ex ''unexpected thing'' stack_ex) stack_ex =
     Inr (''unexpected thing'' @ [CHR 0x0A] @ ''./ex6.js(7 < 13)'')
   \<and> frame_entries True ''/app'' stack_ex = [''./ex6.js(7 < 13)'']
   \<and> frame_entries True ''/app'' stack_ex \<noteq> [''./ex6.js(7'' @ [CHR 0x0A] @ ''13)'']"
  by code_simp

text \<open>
  C6, as the code has it. The text of an error is: the message followed by the frame
  separator, both only when the message is not empty; then, only when the metadata is
  truthy, the text of the metadata and one space, where metadata of type object goes
  through \<^verbatim>\<open>JSON.stringify\<close> with the configured indent and any other metadata
  through \<^verbatim>\<open>String\<close> (a string is rendered as it is, without quotes); then the
  coalesced frame entries joined by the frame separator; then, when \<^verbatim>\<open>prev\<close> is set,
  the boundary separator and the \<^verbatim>\<open>stack\<close> of \<^verbatim>\<open>prev\<close>. When the builtin throws
  on the metadata, the function throws that and returns no text. A separator that is
  absent or empty is the default, \<^verbatim>\<open>' < '\<close> for frames and \<^verbatim>\<open>' << '\<close> for
  boundaries.
\<close>

theorem composition:
  "(\<not> truthy (meta e) \<longrightarrow>
      prepareStackTrace cfg cwd js e s =
        Inr ((if message e = [] then [] else message e @ sep_or (frameSeparator cfg) '' < '')
             @ join (sep_or (frameSeparator cfg) '' < '')
                 (map (entry_text '' < '') (coalesce_runs (survivors (hiding cfg) cwd s)))
             @ (case prev e of None \<Rightarrow> []
                | Some p \<Rightarrow> sep_or (fiberSeparator cfg) '' << '' @ stack_property js p)))
   \<and> (\<forall>t. truthy (meta e)
          \<and> (if typeof_object (meta e) then JSON_stringify js (meta e) (prettyMeta cfg)
              else text_of js (meta e)) = Inr t \<longrightarrow>
      prepareStackTrace cfg cwd js e s =
        Inr ((if message e = [] then [] else message e @ sep_or (frameSeparator cfg) '' < '')
             @ t @ '' ''
             @ join (sep_or (frameSeparator cfg) '' < '')
                 (map (entry_text '' < '') (coalesce_runs (survivors (hiding cfg) cwd s)))
             @ (case prev e of None \<Rightarrow> []
                | Some p \<Rightarrow> sep_or (fiberSeparator cfg) '' << '' @ stack_property js p)))
   \<and> (\<forall>x. truthy (meta e)
          \<and> (if typeof_object (meta e) then JSON_stringify js (meta e) (prettyMeta cfg)
              else text_of js (meta e)) = Inl x \<longrightarrow>
      prepareStackTrace cfg cwd js e s = Inl x)
   \<and> text_of js (Str m) = Inr m
   \<and> sep_or None d = d
   \<and> sep_or (Some y) d = (if y = [] then d else y)"
proof -
  have a: "\<not> truthy (meta e) \<longrightarrow>
      prepareStackTrace cfg cwd js e s =
        Inr ((if message e = [] then [] else message e @ sep_or (frameSeparator cfg) '' < '')
             @ join (sep_or (frameSeparator cfg) '' < '')
                 (map (entry_text '' < '') (coalesce_runs (survivors (hiding cfg) cwd s)))
             @ (case prev e of None \<Rightarrow> []
                | Some p \<Rightarrow> sep_or (fiberSeparator cfg) '' << '' @ stack_property js p))"
    using prepareStackTrace_no_meta [of e cfg cwd js s] by (simp add: frame_entries_runs)
  have b: "\<forall>t. truthy (meta e)
          \<and> (if typeof_object (meta e) then JSON_stringify js (meta e) (prettyMeta cfg)
              else text_of js (meta e)) = Inr t \<longrightarrow>
      prepareStackTrace cfg cwd js e s =
        Inr ((if message e = [] then [] else message e @ sep_or (frameSeparator cfg) '' < '')
             @ t @ '' ''
             @ join (sep_or (frameSeparator cfg) '' < '')
                 (map (entry_text '' < '') (coalesce_runs (survivors (hiding cfg) cwd s)))
             @ (case prev e of None \<Rightarrow> []
                | Some p \<Rightarrow> sep_or (fiberSeparator cfg) '' << '' @ stack_property js p))"
    using prepareStackTrace_meta [of e js cfg _ cwd s] by (simp add: frame_entries_runs)
  have c: "\<forall>x. truthy (meta e)
          \<and> (if typeof_object (meta e) then JSON_stringify js (meta e) (prettyMeta cfg)
              else text_of js (meta e)) = Inl x \<longrightarrow>
      prepareStackTrace cfg cwd js e s = Inl x"
    using prepareStackTrace_throws [of e js cfg _ cwd s] by simp
  have d: "text_of js (Str m) = Inr m" by (simp add: text_of_def)
  have f: "sep_or None d = d" "sep_or (Some y) d = (if y = [] then d else y)"
    by (simp_all add: sep_or_def)
  from a b c d f show ?thesis by (intro conjI)
qed

text \<open>
  A message, the object \<^verbatim>\<open>{xyz: 123}\<close> as metadata and the default separators: the
  metadata is rendered as \<^verbatim>\<open>{"xyz":123}\<close>.
\<close>

theorem composition_witness:
  "prepareStackTrace (leanStacks True Undefined None None) ''/app'' engine_ex
      ((error_ex ''unexpected thing'' stack_ex)\<lparr>meta := Obj [(''xyz'', Num 123)]\<rparr>) stack_ex =
     Inr (''unexpected thing < {'' @ quote_ex ''xyz'' @ '':123} ./ex6.js(7 < 13)'')"
proof -
  let ?e = "(error_ex ''unexpected thing'' stack_ex)\<lparr>meta := Obj [(''xyz'', Num 123)]\<rparr>"
  let ?cfg = "leanStacks True Undefined None None"
  have r: "coalesce_runs (survivors True ''/app'' stack_ex) = [(''./ex6.js'', [''7'', ''13''])]"
    by code_simp
  have j: "JSON_stringify engine_ex (Obj [(''xyz'', Num 123)]) Undefined =
      Inr (''{'' @ quote_ex ''xyz'' @ '':123}'')"
    by code_simp
  have m: "truthy (meta ?e)
          \<and> (if typeof_object (meta ?e) then JSON_stringify engine_ex (meta ?e) (prettyMeta ?cfg)
              else text_of engine_ex (meta ?e)) = Inr (''{'' @ quote_ex ''xyz'' @ '':123}'')"
    using j by (simp add: leanStacks_def)
  from composition [of ?e ?cfg "''/app''" engine_ex stack_ex] m
  have "prepareStackTrace ?cfg ''/app'' engine_ex ?e stack_ex =
        Inr ((if message ?e = [] then [] else message ?e @ sep_or (frameSeparator ?cfg) '' < '')
             @ (''{'' @ quote_ex ''xyz'' @ '':123}'') @ '' ''
             @ join (sep_or (frameSeparator ?cfg) '' < '')
                 (map (entry_text '' < '') (coalesce_runs (survivors (hiding ?cfg) ''/app'' stack_ex)))
             @ (case prev ?e of None \<Rightarrow> []
                | Some p \<Rightarrow> sep_or (fiberSeparator ?cfg) '' << '' @ stack_property engine_ex p))"
    by blast
  then show ?thesis
    by (simp add: leanStacks_def error_ex_def r entry_text_def sep_or_def)
qed

text \<open>
  C6 as stated has the message and the frame separator in front of every rendered error,
  and the metadata as JSON text. An error with an empty message, such as every origin
  error \<^verbatim>\<open>_x\<close> creates, renders as its frame entries alone, with no separator in front;
  the metadata \<^verbatim>\<open>'disk'\<close>, a string, is rendered as \<^verbatim>\<open>disk\<close>, not as the JSON
  text with its quotes; and with the metadata \<^verbatim>\<open>{n: 1n}\<close>, on which
  \<^verbatim>\<open>JSON.stringify\<close> throws, there is no text at all.
\<close>

theorem composition_counterexample:
  "prepareStackTrace (leanStacks True Undefined None None) ''/app'' engine_ex
      (error_ex [] stack_ex) stack_ex = Inr ''./ex6.js(7 < 13)''
   \<and> prepareStackTrace (leanStacks True Undefined None None) ''/app'' engine_ex
      (error_ex [] stack_ex) stack_ex \<noteq>
       Inr (message (error_ex [] stack_ex) @ '' < ''
            @ join '' < '' (frame_entries True ''/app'' stack_ex))
   \<and> prepareStackTrace (leanStacks True Undefined None None) ''/app'' engine_ex
      ((error_ex ''boom'' stack_ex)\<lparr>meta := Str ''disk''\<rparr>) stack_ex =
       Inr ''boom < disk ./ex6.js(7 < 13)''
   \<and> JSON_stringify engine_ex (Str ''disk'') Undefined = Inr (quote_ex ''disk'')
   \<and> prepareStackTrace (leanStacks True Undefined None None) ''/app'' engine_ex
      ((error_ex ''boom'' stack_ex)\<lparr>meta := Str ''disk''\<rparr>) stack_ex \<noteq>
       Inr (''boom'' @ '' < '' @ quote_ex ''disk'' @ '' ''
            @ join '' < '' (frame_entries True ''/app'' stack_ex))
   \<and> prepareStackTrace (leanStacks True Undefined None None) ''/app'' engine_ex
      ((error_ex ''boom'' stack_ex)\<lparr>meta := Obj [(''n'', BigInt 1)]\<rparr>) stack_ex =
       Inl (ErrRef 0)"
  by code_simp

subsection \<open>Hiding\<close>

text \<open>
A name that ends with \<^verbatim>\<open>laeh2.js\<close> matches the library's expression.
\<close>

lemma suffix_laeh2: "suffix ''laeh2.js'' n \<Longrightarrow> matches_laeh2 n"
  by (auto simp: suffix_def matches_laeh2_def Let_def nth_append)

text \<open>
  C8, as the code has it. With hiding enabled, the text the installed function returns
  is the message part, the metadata part, the frame entries joined by the frame
  separator and, when \<^verbatim>\<open>prev\<close> is set, the boundary separator and the \<^verbatim>\<open>stack\<close>
  of \<^verbatim>\<open>prev\<close> as the engine gives it. Every one of the frame entries is the entry of
  a frame of the structured stack whose shortened file location starts with \<^verbatim>\<open>.\<close> or
  \<^verbatim>\<open>/\<close>, does not match the library's expression for its own file, and so does not
  end with \<^verbatim>\<open>laeh2.js\<close>. The text appended for \<^verbatim>\<open>prev\<close> is not looked at: the
  call filters nothing of it.
\<close>

theorem hiding_rendered:
  "hiding cfg \<and> prepareStackTrace cfg cwd js e s = Inr t \<longrightarrow>
     (\<exists>mt. t = (if message e = [] then [] else message e @ sep_or (frameSeparator cfg) '' < '')
              @ mt
              @ join (sep_or (frameSeparator cfg) '' < '') (frame_entries True cwd s)
              @ (case prev e of None \<Rightarrow> []
                 | Some p \<Rightarrow> sep_or (fiberSeparator cfg) '' << '' @ stack_property js p))
     \<and> (\<forall>x \<in> set (frame_entries True cwd s).
          \<exists>f \<in> set s. \<exists>ls.
            x = entry_text '' < '' (shortName cwd f, ls)
            \<and> (take 1 (shortName cwd f) = ''.'' \<or> take 1 (shortName cwd f) = ''/'')
            \<and> \<not> matches_laeh2 (shortName cwd f)
            \<and> \<not> suffix ''laeh2.js'' (shortName cwd f))"
proof (intro impI)
  assume a: "hiding cfg \<and> prepareStackTrace cfg cwd js e s = Inr t"
  let ?tail = "case prev e of None \<Rightarrow> []
                 | Some p \<Rightarrow> sep_or (fiberSeparator cfg) '' << '' @ stack_property js p"
  let ?head = "if message e = [] then [] else message e @ sep_or (frameSeparator cfg) '' < ''"
  let ?ent = "join (sep_or (frameSeparator cfg) '' < '') (frame_entries True cwd s)"
  have shape: "\<exists>mt. t = ?head @ mt @ ?ent @ ?tail"
  proof (cases "truthy (meta e)")
    case False
    from prepareStackTrace_no_meta [OF False, of cfg cwd js s] a
    have "t = ?head @ [] @ ?ent @ ?tail" by simp
    then show ?thesis by blast
  next
    case True
    let ?m = "if typeof_object (meta e) then JSON_stringify js (meta e) (prettyMeta cfg)
              else text_of js (meta e)"
    show ?thesis
    proof (cases ?m)
      case (Inl x)
      from prepareStackTrace_throws [OF True Inl, of cwd s] a show ?thesis by simp
    next
      case (Inr u)
      from prepareStackTrace_meta [OF True Inr, of cwd s] a
      have "t = ?head @ (u @ '' '') @ ?ent @ ?tail" by simp
      then show ?thesis by blast
    qed
  qed
  have ent: "\<forall>x \<in> set (frame_entries True cwd s).
          \<exists>f \<in> set s. \<exists>ls.
            x = entry_text '' < '' (shortName cwd f, ls)
            \<and> (take 1 (shortName cwd f) = ''.'' \<or> take 1 (shortName cwd f) = ''/'')
            \<and> \<not> matches_laeh2 (shortName cwd f)
            \<and> \<not> suffix ''laeh2.js'' (shortName cwd f)"
  proof
    fix x
    assume "x \<in> set (frame_entries True cwd s)"
    then obtain g where g: "g \<in> set (coalesce_runs (survivors True cwd s))"
      and x: "x = entry_text '' < '' g"
      by (auto simp: frame_entries_runs)
    from coalesce_runs_fst [OF g] obtain f where f: "f \<in> set s"
      and k: "\<not> skipped True (shortName cwd f)" and n: "fst g = shortName cwd f"
      by (auto simp: survivors_def)
    from k have p: "(take 1 (shortName cwd f) = ''.'' \<or> take 1 (shortName cwd f) = ''/'')
        \<and> \<not> matches_laeh2 (shortName cwd f)"
      by (auto simp: skipped_def Let_def)
    then have "\<not> suffix ''laeh2.js'' (shortName cwd f)"
      using suffix_laeh2 by blast
    moreover have "x = entry_text '' < '' (shortName cwd f, snd g)"
      using x n by (cases g) simp
    ultimately show "\<exists>f \<in> set s. \<exists>ls.
         x = entry_text '' < '' (shortName cwd f, ls)
         \<and> (take 1 (shortName cwd f) = ''.'' \<or> take 1 (shortName cwd f) = ''/'')
         \<and> \<not> matches_laeh2 (shortName cwd f)
         \<and> \<not> suffix ''laeh2.js'' (shortName cwd f)"
      using f p by blast
  qed
  from shape ent show "(\<exists>mt. t = ?head @ mt @ ?ent @ ?tail)
     \<and> (\<forall>x \<in> set (frame_entries True cwd s).
          \<exists>f \<in> set s. \<exists>ls.
            x = entry_text '' < '' (shortName cwd f, ls)
            \<and> (take 1 (shortName cwd f) = ''.'' \<or> take 1 (shortName cwd f) = ''/'')
            \<and> \<not> matches_laeh2 (shortName cwd f)
            \<and> \<not> suffix ''laeh2.js'' (shortName cwd f))"
    by (intro conjI)
qed

text \<open>
Of the six frames of \<open>stack_ex\<close> only the two of /app/ex6.js are rendered.
\<close>

theorem hiding_rendered_witness:
  "prepareStackTrace (leanStacks True Undefined None None) ''/app'' engine_ex
      (error_ex ''boom'' stack_ex) stack_ex = Inr ''boom < ./ex6.js(7 < 13)''
   \<and> frame_entries True ''/app'' stack_ex = [''./ex6.js(7 < 13)'']
   \<and> (\<exists>f \<in> set stack_ex. \<exists>ls.
         ''./ex6.js(7 < 13)'' = entry_text '' < '' (shortName ''/app'' f, ls)
         \<and> (take 1 (shortName ''/app'' f) = ''.'' \<or> take 1 (shortName ''/app'' f) = ''/'')
         \<and> \<not> matches_laeh2 (shortName ''/app'' f)
         \<and> \<not> suffix ''laeh2.js'' (shortName ''/app'' f))"
proof -
  let ?cfg = "leanStacks True Undefined None None"
  have r: "prepareStackTrace ?cfg ''/app'' engine_ex (error_ex ''boom'' stack_ex) stack_ex =
      Inr ''boom < ./ex6.js(7 < 13)''"
    by code_simp
  have m: "frame_entries True ''/app'' stack_ex = [''./ex6.js(7 < 13)'']"
    by code_simp
  have h: "hiding ?cfg" by (simp add: leanStacks_def)
  from hiding_rendered [of ?cfg "''/app''" engine_ex "error_ex ''boom'' stack_ex" stack_ex
      "''boom < ./ex6.js(7 < 13)''"] h r
  have "\<forall>x \<in> set (frame_entries True ''/app'' stack_ex).
          \<exists>f \<in> set stack_ex. \<exists>ls.
            x = entry_text '' < '' (shortName ''/app'' f, ls)
            \<and> (take 1 (shortName ''/app'' f) = ''.'' \<or> take 1 (shortName ''/app'' f) = ''/'')
            \<and> \<not> matches_laeh2 (shortName ''/app'' f)
            \<and> \<not> suffix ''laeh2.js'' (shortName ''/app'' f)"
    by blast
  then show ?thesis
    unfolding m using r by simp
qed

text \<open>
  C8 as stated has no entry of the library's own file anywhere in the rendered output.
  With hiding enabled and an engine that gives the \<^verbatim>\<open>stack\<close> of the origin in its own
  format when the installed function reads it, the text of an error that crossed a
  boundary has the library's frame, \<^verbatim>\<open>laeh2.js:52\<close>, after the boundary separator.
\<close>

theorem hiding_prev_counterexample:
  "hiding (leanStacks True Undefined None None)
   \<and> prepareStackTrace (leanStacks True Undefined None None) ''/app'' engine_ex
      ((error_ex ''boom'' stack_ex)\<lparr>prev := Some 1\<rparr>) stack_ex =
     Inr (''boom < ./ex6.js(7 < 13) << Error'' @ [CHR 0x0A]
          @ ''    at _x (/app/node_modules/laeh2/lib/'' @ ''laeh2.js'' @ '':52:13)'' @ [CHR 0x0A]
          @ ''    at /app/ex6.js:7:3'')
   \<and> stack_property engine_ex 1 =
       ''Error'' @ [CHR 0x0A]
       @ ''    at _x (/app/node_modules/laeh2/lib/laeh2.js:52:13)'' @ [CHR 0x0A]
       @ ''    at /app/ex6.js:7:3''"
  by code_simp

subsection \<open>Chains of errors across boundaries\<close>

text \<open>
  After a non-empty sequence of crossings the chain from the error is the error and the
  origin of the last boundary crossed.
\<close>

lemma cross_chain:
  assumes "ws \<noteq> []" and "a < length h0"
    and "\<forall>w \<in> set ws. truthy (w_chk w) \<and> truthy (w_cb w)
             \<and> (\<forall>args hh. app (w_cb w) args hh = (None, hh))
             \<and> w_prev w < length h0 \<and> w_prev w \<noteq> a \<and> prev (h0 ! w_prev w) = None"
  shows "cross conv app cap ws a h0 = h0[a := (h0 ! a)\<lparr>prev := Some (w_prev (last ws))\<rparr>]"
    and "is_chain (cross conv app cap ws a h0) [a, w_prev (last ws)]"
proof -
  show c: "cross conv app cap ws a h0 = h0[a := (h0 ! a)\<lparr>prev := Some (w_prev (last ws))\<rparr>]"
    using assms by (intro cross_store) auto
  from assms(1) have "last ws \<in> set ws" by simp
  with assms(3) have p: "w_prev (last ws) < length h0" "a \<noteq> w_prev (last ws)"
    "prev (h0 ! w_prev (last ws)) = None"
    by auto
  with assms(2) show "is_chain (cross conv app cap ws a h0) [a, w_prev (last ws)]"
    by (simp add: c)
qed

text \<open>
  C7, as the code has it. When \<^verbatim>\<open>prev\<close> is set, the installed function appends the
  boundary separator and the \<^verbatim>\<open>stack\<close> of \<^verbatim>\<open>prev\<close> as the engine gives it, once: the
  function itself does not follow the links, and whether that text was made by the
  installed function is the engine's matter. And a chain does not grow with the
  boundaries crossed: after an error has crossed any non-empty sequence of boundaries
  (handlers that leave the store alone, origins that are fresh), its chain is the error
  and the origin of the last boundary crossed, and its text is its own text, one
  boundary separator and the \<^verbatim>\<open>stack\<close> of that origin.
\<close>

theorem chain_rendering:
  "(prev e = Some p \<and> prepareStackTrace cfg cwd js (e\<lparr>prev := None\<rparr>) s = Inr t \<longrightarrow>
      prepareStackTrace cfg cwd js e s =
        Inr (t @ sep_or (fiberSeparator cfg) '' << '' @ stack_property js p))
   \<and> (ws \<noteq> [] \<and> a < length h0
       \<and> (\<forall>w \<in> set ws. truthy (w_chk w) \<and> truthy (w_cb w)
             \<and> (\<forall>args hh. app (w_cb w) args hh = (None, hh))
             \<and> w_prev w < length h0 \<and> w_prev w \<noteq> a \<and> prev (h0 ! w_prev w) = None) \<longrightarrow>
      is_chain (cross conv app cap ws a h0) [a, w_prev (last ws)]
      \<and> prepareStackTrace cfg cwd js (cross conv app cap ws a h0 ! a) s =
          (case prepareStackTrace cfg cwd js ((h0 ! a)\<lparr>prev := None\<rparr>) s of
             Inl x \<Rightarrow> Inl x
           | Inr u \<Rightarrow>
               Inr (u @ sep_or (fiberSeparator cfg) '' << ''
                    @ stack_property js (w_prev (last ws)))))"
proof -
  have A: "prev e = Some p \<and> prepareStackTrace cfg cwd js (e\<lparr>prev := None\<rparr>) s = Inr t \<longrightarrow>
      prepareStackTrace cfg cwd js e s =
        Inr (t @ sep_or (fiberSeparator cfg) '' << '' @ stack_property js p)"
    using prepareStackTrace_prev by blast
  have B: "is_chain (cross conv app cap ws a h0) [a, w_prev (last ws)]
      \<and> prepareStackTrace cfg cwd js (cross conv app cap ws a h0 ! a) s =
          (case prepareStackTrace cfg cwd js ((h0 ! a)\<lparr>prev := None\<rparr>) s of
             Inl x \<Rightarrow> Inl x
           | Inr u \<Rightarrow>
               Inr (u @ sep_or (fiberSeparator cfg) '' << ''
                    @ stack_property js (w_prev (last ws))))"
    if h: "ws \<noteq> [] \<and> a < length h0
       \<and> (\<forall>w \<in> set ws. truthy (w_chk w) \<and> truthy (w_cb w)
             \<and> (\<forall>args hh. app (w_cb w) args hh = (None, hh))
             \<and> w_prev w < length h0 \<and> w_prev w \<noteq> a \<and> prev (h0 ! w_prev w) = None)"
  proof -
    from h have 1: "ws \<noteq> []" and 2: "a < length h0"
      and 3: "\<forall>w \<in> set ws. truthy (w_chk w) \<and> truthy (w_cb w)
             \<and> (\<forall>args hh. app (w_cb w) args hh = (None, hh))
             \<and> w_prev w < length h0 \<and> w_prev w \<noteq> a \<and> prev (h0 ! w_prev w) = None"
      by blast+
    note c = cross_chain [OF 1 2 3, of conv cap]
    have "cross conv app cap ws a h0 ! a = (h0 ! a)\<lparr>prev := Some (w_prev (last ws))\<rparr>"
      using 2 by (simp add: c(1))
    then show ?thesis
      using c(2) prepareStackTrace_link [where e = "h0 ! a" and p = "w_prev (last ws)"]
      by simp
  qed
  from A B show ?thesis by blast
qed

text \<open>
  The error at address 0 crosses the boundaries with origins 1 and 2: its chain is
  itself and origin 2.
\<close>

theorem chain_rendering_witness:
  "is_chain (cross conv_ex app_ex cap_ex [boundary_ex 1, boundary_ex 2] 0 chain_store_ex) [0, 2]
   \<and> prepareStackTrace (leanStacks True Undefined None None) ''/app'' engine_ex
       (cross conv_ex app_ex cap_ex [boundary_ex 1, boundary_ex 2] 0 chain_store_ex ! 0)
       [frame_at ''/app/ex6.js'' 9] =
       Inr (''boom < ./ex6.js(9) << '' @ stack_property engine_ex 2)"
proof -
  let ?ws = "[boundary_ex 1, boundary_ex 2]"
  let ?cfg = "leanStacks True Undefined None None"
  let ?s = "[frame_at ''/app/ex6.js'' 9]"
  have h: "?ws \<noteq> [] \<and> 0 < length chain_store_ex
       \<and> (\<forall>w \<in> set ?ws. truthy (w_chk w) \<and> truthy (w_cb w)
             \<and> (\<forall>args hh. app_ex (w_cb w) args hh = (None, hh))
             \<and> w_prev w < length chain_store_ex \<and> w_prev w \<noteq> 0
             \<and> prev (chain_store_ex ! w_prev w) = None)"
    by (simp add: chain_ex_defs handler_ex_def app_ex_def error_ex_def)
  have own: "prepareStackTrace ?cfg ''/app'' engine_ex ((chain_store_ex ! 0)\<lparr>prev := None\<rparr>) ?s =
      Inr ''boom < ./ex6.js(9)''"
    by code_simp
  have l: "w_prev (last ?ws) = 2" by (simp add: boundary_ex_def)
  note th = chain_rendering [of "chain_store_ex ! 0" 0 ?cfg "''/app''" engine_ex ?s "[]"
      ?ws 0 chain_store_ex app_ex conv_ex cap_ex]
  from th h have "is_chain (cross conv_ex app_ex cap_ex ?ws 0 chain_store_ex) [0, w_prev (last ?ws)]
      \<and> prepareStackTrace ?cfg ''/app'' engine_ex (cross conv_ex app_ex cap_ex ?ws 0 chain_store_ex ! 0) ?s =
          (case prepareStackTrace ?cfg ''/app'' engine_ex ((chain_store_ex ! 0)\<lparr>prev := None\<rparr>) ?s of
             Inl x \<Rightarrow> Inl x
           | Inr u \<Rightarrow>
               Inr (u @ sep_or (fiberSeparator ?cfg) '' << ''
                    @ stack_property engine_ex (w_prev (last ?ws))))"
    by blast
  then show ?thesis
    unfolding l own by (simp add: leanStacks_def sep_or_def)
qed

text \<open>
  C7 as stated has a chain of N errors for N boundaries crossed. After one boundary the
  chain has two errors. After three boundaries, with origins 1, 2 and 3, the chain is
  still two errors, the error and origin 3, which has no link of its own: the three
  origins, in either order, are not a chain from the error. The same holds when one
  instance is the completion handler of the other: the chain is the error and the origin
  of the outer instance.
\<close>

theorem chain_length_counterexample:
  "is_chain (cross conv_ex app_ex cap_ex [boundary_ex 1] 0 chain_store_ex) [0, 1]
   \<and> is_chain (cross conv_ex app_ex cap_ex [boundary_ex 1, boundary_ex 2, boundary_ex 3] 0
        chain_store_ex) [0, 3]
   \<and> \<not> is_chain (cross conv_ex app_ex cap_ex [boundary_ex 1, boundary_ex 2, boundary_ex 3] 0
        chain_store_ex) [0, 3, 2, 1]
   \<and> \<not> is_chain (cross conv_ex app_ex cap_ex [boundary_ex 1, boundary_ex 2, boundary_ex 3] 0
        chain_store_ex) [0, 1, 2, 3]
   \<and> prev (cross conv_ex app_ex cap_ex [boundary_ex 1, boundary_ex 2, boundary_ex 3] 0
        chain_store_ex ! 3) = None
   \<and> is_chain (store (invoke conv_ex app_nested_ex cap_ex inner_ex [ErrRef 0] chain_store_ex))
       [0, 2]
   \<and> \<not> is_chain (store (invoke conv_ex app_nested_ex cap_ex inner_ex [ErrRef 0] chain_store_ex))
       [0, 2, 1]"
  by code_simp

end
